theory Spec2Isabelle
  imports Main "HOL-Library.FSet" "HOL-Library.Sublist"
begin

section \<open>Errors\<close>

text \<open>
  Exceptions of the Python code are values. \<open>HTTPException\<close> carries the status code and
  a structured detail (the f-string details of the source format floats and lists; the
  model keeps the data those strings are built from).
\<close>

datatype detail =
    NoFilename
  | UnsupportedFileType "string list"
  | FileTooLarge int
  | EmptyFile
  | UploadFailed string

datatype error =
    ValueError string
  | KeyError string
  | HTTPException nat detail
  | Unhandled string

section \<open>Data model (app/models/report.py)\<close>

datatype ReportStatus = UPLOADING | PARSING | READY | ERROR

datatype FieldType =
    STRING | NUMBER | DATE | DATETIME | BOOLEAN | CURRENCY | FORMULA | PARAMETER
  | RUNNING_TOTAL | GROUP | SUMMARY

datatype SectionType =
    REPORT_HEADER | PAGE_HEADER | GROUP_HEADER | DETAILS | GROUP_FOOTER
  | REPORT_FOOTER | PAGE_FOOTER

datatype EditPatchOperation = HIDE | SHOW | MOVE | RENAME | RESIZE | FORMAT | DELETE

fun FieldType_value :: "FieldType \<Rightarrow> string" where
  "FieldType_value STRING = ''string''"
| "FieldType_value NUMBER = ''number''"
| "FieldType_value DATE = ''date''"
| "FieldType_value DATETIME = ''datetime''"
| "FieldType_value BOOLEAN = ''boolean''"
| "FieldType_value CURRENCY = ''currency''"
| "FieldType_value FORMULA = ''formula''"
| "FieldType_value PARAMETER = ''parameter''"
| "FieldType_value RUNNING_TOTAL = ''running_total''"
| "FieldType_value GROUP = ''group''"
| "FieldType_value SUMMARY = ''summary''"

fun SectionType_value :: "SectionType \<Rightarrow> string" where
  "SectionType_value REPORT_HEADER = ''report_header''"
| "SectionType_value PAGE_HEADER = ''page_header''"
| "SectionType_value GROUP_HEADER = ''group_header''"
| "SectionType_value DETAILS = ''details''"
| "SectionType_value GROUP_FOOTER = ''group_footer''"
| "SectionType_value REPORT_FOOTER = ''report_footer''"
| "SectionType_value PAGE_FOOTER = ''page_footer''"

fun EditPatchOperation_value :: "EditPatchOperation \<Rightarrow> string" where
  "EditPatchOperation_value HIDE = ''hide''"
| "EditPatchOperation_value SHOW = ''show''"
| "EditPatchOperation_value MOVE = ''move''"
| "EditPatchOperation_value RENAME = ''rename''"
| "EditPatchOperation_value RESIZE = ''resize''"
| "EditPatchOperation_value FORMAT = ''format''"
| "EditPatchOperation_value DELETE = ''delete''"

text \<open>
  A \<open>Dict[str, int]\<close> is an association list read with \<open>map_of\<close>; a
  \<open>Dict[str, Any]\<close> format map is an association list of strings.
\<close>

type_synonym position = "(string \<times> int) list"
type_synonym format_map = "(string \<times> string) list"

record DatabaseField =
  table_name :: string
  db_field_name :: string
  data_type :: string
  is_key :: bool
  db_description :: "string option"

record ReportField =
  f_id :: string
  f_name :: string
  display_name :: "string option"
  field_type :: FieldType
  f_section :: SectionType
  f_x :: int
  f_y :: int
  f_width :: int
  f_height :: int
  f_visible :: bool
  f_formula :: "string option"
  f_format :: "format_map option"
  database_field :: "DatabaseField option"

record ReportSection =
  s_id :: string
  section_type :: SectionType
  s_name :: string
  s_height :: int
  s_visible :: bool
  s_fields :: "ReportField list"

record DatabaseConnection =
  driver :: string
  server :: "string option"
  database :: "string option"
  username :: "string option"
  connection_string :: "string option"

record ReportMetadata =
  md_id :: string
  md_filename :: string
  title :: "string option"
  md_description :: "string option"
  author :: "string option"
  sections :: "ReportSection list"
  parameters :: "ReportField list"
  formulas :: "ReportField list"
  database_connections :: "DatabaseConnection list"
  tables :: "string list"
  md_status :: ReportStatus
  md_file_size :: int
  md_error_message :: "string option"

record EditPatch =
  p_id :: string
  operation :: EditPatchOperation
  target_field_id :: string
  target_section_id :: "string option"
  new_name :: "string option"
  new_position :: "position option"
  new_format :: "format_map option"
  p_visible :: "bool option"
  p_description :: "string option"

subsection \<open>EditPatch.validate_position\<close>

definition required_keys :: "string list" where
  "required_keys = [''x'', ''y'', ''width'', ''height'']"

text \<open>
  The validator runs after pydantic has coerced the values of the \<open>Dict[str, int]\<close>
  to integers, so \<open>isinstance(v[key], int)\<close> holds for every key and only the sign is
  left to check. The second test is reached only when all four keys are present, so the
  lookup \<open>v[key]\<close> cannot raise there.
\<close>

definition validate_position :: "position option \<Rightarrow> error + position option" where
  "validate_position v =
     (case v of
        None \<Rightarrow> Inr None
      | Some d \<Rightarrow>
          if \<not> list_all (\<lambda>key. map_of d key \<noteq> None) required_keys
          then Inl (ValueError ''Position must contain all keys'')
          else if \<not> list_all (\<lambda>key. case map_of d key of None \<Rightarrow> False | Some n \<Rightarrow> 0 \<le> n)
                      required_keys
          then Inl (ValueError ''Position values must be non-negative integers'')
          else Inr (Some d))"

text \<open>
  Constructing an \<open>EditPatch\<close>: the only validator of the class is the one on
  \<open>new_position\<close>; a validator's \<open>ValueError\<close> makes the construction fail.
\<close>

definition EditPatch_new ::
  "string \<Rightarrow> EditPatchOperation \<Rightarrow> string \<Rightarrow> string option \<Rightarrow> string option \<Rightarrow>
   position option \<Rightarrow> format_map option \<Rightarrow> bool option \<Rightarrow> string option \<Rightarrow> error + EditPatch" where
  "EditPatch_new pid op target sec nm pos fmt vis descr =
     (case validate_position pos of
        Inl e \<Rightarrow> Inl e
      | Inr pos' \<Rightarrow>
          Inr \<lparr> p_id = pid, operation = op, target_field_id = target, target_section_id = sec,
                new_name = nm, new_position = pos', new_format = fmt, p_visible = vis,
                p_description = descr \<rparr>)"

section \<open>File utilities (app/utils/file\_utils.py)\<close>

subsection \<open>The library functions \<open>str\<close> and \<open>os.path.splitext\<close>\<close>

definition digit_char :: "nat \<Rightarrow> char" where
  "digit_char d = ''0123456789'' ! d"

fun str_nat :: "nat \<Rightarrow> string" where
  "str_nat n = (if n < 10 then [digit_char n] else str_nat (n div 10) @ [digit_char (n mod 10)])"

declare str_nat.simps [simp del]

fun rfind_aux :: "char \<Rightarrow> string \<Rightarrow> int \<Rightarrow> int \<Rightarrow> int" where
  "rfind_aux c [] i found = found"
| "rfind_aux c (x # xs) i found = rfind_aux c xs (i + 1) (if x = c then i else found)"

definition rfind :: "char \<Rightarrow> string \<Rightarrow> int" where
  "rfind c s = rfind_aux c s 0 (- 1)"

text \<open>
  \<open>posixpath.splitext\<close>: the extension starts at the last dot of the last path
  component, unless that component has only dots before it.
\<close>

definition splitext :: "string \<Rightarrow> string \<times> string" where
  "splitext p =
     (let sepIndex = rfind CHR ''/'' p; dotIndex = rfind CHR ''.'' p in
      if dotIndex > sepIndex \<and>
         list_ex (\<lambda>c. c \<noteq> CHR ''.'')
           (take (nat (dotIndex - (sepIndex + 1))) (drop (nat (sepIndex + 1)) p))
      then (take (nat dotIndex) p, drop (nat dotIndex) p)
      else (p, []))"

subsection \<open>get\_unique\_filename\<close>

text \<open>
  The directory is the finite set of the names that exist in it:
  \<open>(directory / filename).exists()\<close> is membership.
\<close>

definition new_filename :: "string \<Rightarrow> string \<Rightarrow> nat \<Rightarrow> string" where
  "new_filename name ext counter = name @ ''_'' @ str_nat counter @ ext"

lemma digit_char_inj: "a < 10 \<Longrightarrow> b < 10 \<Longrightarrow> digit_char a = digit_char b \<Longrightarrow> a = b"
proof -
  assume a: "a < 10" and b: "b < 10" and e: "digit_char a = digit_char b"
  have d: "distinct ''0123456789''" by simp
  have "a < length ''0123456789''" "b < length ''0123456789''" using a b by simp_all
  with d e show "a = b" unfolding digit_char_def by (simp only: nth_eq_iff_index_eq)
qed

lemma str_nat_not_Nil: "str_nat n \<noteq> []"
  by (subst str_nat.simps) simp

lemma str_nat_inj: "str_nat n = str_nat m \<Longrightarrow> n = m"
proof (induction n arbitrary: m rule: less_induct)
  case (less n)
  show ?case
  proof (cases "n < 10")
    case True
    note n = this
    show ?thesis
    proof (cases "m < 10")
      case True
      with n less.prems show ?thesis
        by (simp add: str_nat.simps [of n] str_nat.simps [of m] digit_char_inj)
    next
      case False
      with n less.prems str_nat_not_Nil [of "m div 10"] show ?thesis
        by (simp add: str_nat.simps [of n] str_nat.simps [of m])
    qed
  next
    case False
    note n = this
    show ?thesis
    proof (cases "m < 10")
      case True
      with n less.prems str_nat_not_Nil [of "n div 10"] show ?thesis
        by (simp add: str_nat.simps [of n] str_nat.simps [of m])
    next
      case False
      with n less.prems
      have e: "str_nat (n div 10) = str_nat (m div 10)"
        and d: "digit_char (n mod 10) = digit_char (m mod 10)"
        by (simp_all add: str_nat.simps [of n] str_nat.simps [of m])
      from n have "n div 10 < n" by simp
      from less.IH [OF this e] have q: "n div 10 = m div 10" .
      have "n mod 10 = m mod 10" using d by (simp add: digit_char_inj)
      with q show ?thesis by (metis div_mult_mod_eq)
    qed
  qed
qed

lemma new_filename_inj: "new_filename name ext j = new_filename name ext k \<Longrightarrow> j = k"
  by (simp add: new_filename_def str_nat_inj)

definition taken_from :: "string fset \<Rightarrow> string \<Rightarrow> string \<Rightarrow> nat \<Rightarrow> string set" where
  "taken_from dir name ext counter =
     {f. f |\<in>| dir \<and> (\<exists>j\<ge>counter. f = new_filename name ext j)}"

lemma taken_from_decreases:
  assumes "new_filename name ext counter |\<in>| dir"
  shows "card (taken_from dir name ext (Suc counter)) < card (taken_from dir name ext counter)"
proof (rule psubset_card_mono)
  have "taken_from dir name ext counter \<subseteq> fset dir"
    by (auto simp: taken_from_def)
  then show "finite (taken_from dir name ext counter)"
    by (rule finite_subset) simp
  have sub: "taken_from dir name ext (Suc counter) \<subseteq> taken_from dir name ext counter"
    unfolding taken_from_def using Suc_leD by blast
  have inn: "new_filename name ext counter \<in> taken_from dir name ext counter"
    using assms by (auto simp: taken_from_def)
  have out: "new_filename name ext counter \<notin> taken_from dir name ext (Suc counter)"
    by (auto simp: taken_from_def dest: new_filename_inj)
  from sub inn out
  show "taken_from dir name ext (Suc counter) \<subset> taken_from dir name ext counter"
    by blast
qed

text \<open>The \<open>while True\<close> loop, from the value of \<open>counter\<close> on.\<close>

function unique_loop :: "string fset \<Rightarrow> string \<Rightarrow> string \<Rightarrow> nat \<Rightarrow> string" where
  "unique_loop dir name ext counter =
     (if new_filename name ext counter |\<notin>| dir then new_filename name ext counter
      else unique_loop dir name ext (Suc counter))"
  by pat_completeness auto
termination
  by (relation "measure (\<lambda>(dir, name, ext, counter). card (taken_from dir name ext counter))")
     (auto intro: taken_from_decreases)

declare unique_loop.simps [simp del]

definition get_unique_filename :: "string fset \<Rightarrow> string \<Rightarrow> string" where
  "get_unique_filename dir filename =
     (if filename |\<notin>| dir then filename
      else case splitext filename of (name, ext) \<Rightarrow> unique_loop dir name ext 1)"

section \<open>Edit service (app/services/edit\_service.py)\<close>

subsection \<open>Python helpers\<close>

text \<open>Truth value of an \<open>Optional\<close> string, list or dict: \<open>None\<close> and the empty value are false.\<close>

definition truthy :: "'a list option \<Rightarrow> bool" where
  "truthy v = (case v of None \<Rightarrow> False | Some xs \<Rightarrow> xs \<noteq> [])"

definition dict_get :: "('k \<times> 'v) list \<Rightarrow> 'k \<Rightarrow> 'v \<Rightarrow> 'v" where
  "dict_get d k dflt = (case map_of d k of None \<Rightarrow> dflt | Some v \<Rightarrow> v)"

fun join :: "string \<Rightarrow> string list \<Rightarrow> string" where
  "join sep [] = []"
| "join sep [x] = x"
| "join sep (x # y # ys) = x @ sep @ join sep (y # ys)"

definition str_int :: "int \<Rightarrow> string" where
  "str_int i = (if i < 0 then ''-'' @ str_nat (nat (- i)) else str_nat (nat i))"

subsection \<open>Finding a field\<close>

fun find_in_fields :: "string \<Rightarrow> ReportField list \<Rightarrow> ReportField option" where
  "find_in_fields fid [] = None"
| "find_in_fields fid (f # fs) = (if f_id f = fid then Some f else find_in_fields fid fs)"

fun find_in_sections :: "string \<Rightarrow> ReportSection list \<Rightarrow> ReportField option" where
  "find_in_sections fid [] = None"
| "find_in_sections fid (s # ss) =
     (case find_in_fields fid (s_fields s) of
        Some f \<Rightarrow> Some f
      | None \<Rightarrow> find_in_sections fid ss)"

definition find_field_by_id :: "ReportMetadata \<Rightarrow> string \<Rightarrow> ReportField option" where
  "find_field_by_id metadata fid =
     (case find_in_sections fid (sections metadata) of
        Some f \<Rightarrow> Some f
      | None \<Rightarrow>
          (case find_in_fields fid (parameters metadata) of
             Some f \<Rightarrow> Some f
           | None \<Rightarrow> find_in_fields fid (formulas metadata)))"

fun find_section_in :: "string \<Rightarrow> ReportSection list \<Rightarrow> string" where
  "find_section_in fid [] = ''Other''"
| "find_section_in fid (s # ss) =
     (if find_in_fields fid (s_fields s) \<noteq> None then s_name s else find_section_in fid ss)"

definition find_section_for_field :: "ReportMetadata \<Rightarrow> string \<Rightarrow> string" where
  "find_section_for_field metadata fid = find_section_in fid (sections metadata)"

subsection \<open>Validation\<close>

text \<open>The body of the validation loop for one patch: the errors it appends.\<close>

definition validate_patch :: "ReportMetadata \<Rightarrow> EditPatch \<Rightarrow> string list" where
  "validate_patch metadata patch =
     (case find_field_by_id metadata (target_field_id patch) of
        None \<Rightarrow> [''Field '' @ target_field_id patch @ '' not found'']
      | Some field \<Rightarrow>
          (case operation patch of
             RENAME \<Rightarrow>
               if \<not> truthy (new_name patch)
               then [''Patch '' @ p_id patch @ '': new_name required for rename operation'']
               else []
           | MOVE \<Rightarrow>
               if \<not> truthy (new_position patch)
               then [''Patch '' @ p_id patch @ '': new_position required for move operation'']
               else []
           | RESIZE \<Rightarrow>
               if \<not> truthy (new_position patch)
               then [''Patch '' @ p_id patch @ '': new_position required for resize operation'']
               else []
           | FORMAT \<Rightarrow>
               if \<not> truthy (new_format patch)
               then [''Patch '' @ p_id patch @ '': new_format required for format operation'']
               else []
           | _ \<Rightarrow> []))"

fun validate_patches :: "ReportMetadata \<Rightarrow> EditPatch list \<Rightarrow> string list" where
  "validate_patches metadata [] = []"
| "validate_patches metadata (patch # patches) =
     validate_patch metadata patch @ validate_patches metadata patches"

definition validation_message :: "string list \<Rightarrow> string" where
  "validation_message validation_errors =
     ''Patch validation failed: '' @ join ''; '' validation_errors"

subsection \<open>Applying patches to the preview copy\<close>

definition move_field :: "ReportField \<Rightarrow> position \<Rightarrow> ReportField" where
  "move_field field pos =
     field \<lparr> f_x := dict_get pos ''x'' (f_x field),
             f_y := dict_get pos ''y'' (f_y field),
             f_width := dict_get pos ''width'' (f_width field),
             f_height := dict_get pos ''height'' (f_height field) \<rparr>"

definition apply_patch_to_field :: "ReportField \<Rightarrow> EditPatch \<Rightarrow> ReportField" where
  "apply_patch_to_field field patch =
     (case operation patch of
        HIDE \<Rightarrow> field \<lparr> f_visible := False \<rparr>
      | SHOW \<Rightarrow> field \<lparr> f_visible := True \<rparr>
      | RENAME \<Rightarrow>
          if truthy (new_name patch) then field \<lparr> display_name := new_name patch \<rparr> else field
      | MOVE \<Rightarrow>
          (case new_position patch of
             None \<Rightarrow> field
           | Some pos \<Rightarrow> if pos \<noteq> [] then move_field field pos else field)
      | RESIZE \<Rightarrow>
          (case new_position patch of
             None \<Rightarrow> field
           | Some pos \<Rightarrow> if pos \<noteq> [] then move_field field pos else field)
      | FORMAT \<Rightarrow>
          if truthy (new_format patch) then field \<lparr> f_format := new_format patch \<rparr> else field
      | DELETE \<Rightarrow> field)"

text \<open>
  One \<open>for ... if field.id == patch.target_field_id: ...; break\<close> loop over a list of
  fields: the first field with the id is patched, the rest of the list is left as it is.
\<close>

fun patch_first :: "EditPatch \<Rightarrow> ReportField list \<Rightarrow> ReportField list" where
  "patch_first patch [] = []"
| "patch_first patch (f # fs) =
     (if f_id f = target_field_id patch then apply_patch_to_field f patch # fs
      else f # patch_first patch fs)"

text \<open>
  The body of the loop over the patches. The \<open>break\<close> of the section loop leaves the
  inner loop only, so every section is searched, then the parameters and the formulas.
\<close>

definition apply_patch_to_metadata :: "ReportMetadata \<Rightarrow> EditPatch \<Rightarrow> ReportMetadata" where
  "apply_patch_to_metadata preview_metadata patch =
     preview_metadata
       \<lparr> sections := map (\<lambda>s. s \<lparr> s_fields := patch_first patch (s_fields s) \<rparr>)
                        (sections preview_metadata),
         parameters := patch_first patch (parameters preview_metadata),
         formulas := patch_first patch (formulas preview_metadata) \<rparr>"

text \<open>
  The deep copy \<open>ReportMetadata(**metadata.model_dump())\<close> runs the validators again:
  \<open>set_display_name\<close> replaces a missing or empty display name by the name.
\<close>

definition set_display_name :: "ReportField \<Rightarrow> ReportField" where
  "set_display_name f =
     (if truthy (display_name f) then f else f \<lparr> display_name := Some (f_name f) \<rparr>)"

definition deep_copy :: "ReportMetadata \<Rightarrow> ReportMetadata" where
  "deep_copy metadata =
     metadata
       \<lparr> sections := map (\<lambda>s. s \<lparr> s_fields := map set_display_name (s_fields s) \<rparr>)
                        (sections metadata),
         parameters := map set_display_name (parameters metadata),
         formulas := map set_display_name (formulas metadata) \<rparr>"

definition apply_patches_to_metadata ::
  "ReportMetadata \<Rightarrow> EditPatch list \<Rightarrow> bool \<Rightarrow> ReportMetadata" where
  "apply_patches_to_metadata metadata patches dry_run =
     foldl apply_patch_to_metadata (deep_copy metadata) patches"

subsection \<open>Warnings and impact\<close>

fun hide_warnings :: "ReportMetadata \<Rightarrow> EditPatch list \<Rightarrow> string list" where
  "hide_warnings metadata [] = []"
| "hide_warnings metadata (patch # patches) =
     (if operation patch = HIDE then
        (case find_field_by_id metadata (target_field_id patch) of
           None \<Rightarrow> []
         | Some field \<Rightarrow>
             if field_type field = CURRENCY \<or> field_type field = FORMULA
             then [''Hiding '' @ FieldType_value (field_type field) @ '' field '' @ [CHR 0x27]
                   @ f_name field @ [CHR 0x27] @ '' may affect report calculations'']
             else [])
      else [])
     @ hide_warnings metadata patches"

fun position_warnings :: "EditPatch list \<Rightarrow> string list" where
  "position_warnings [] = []"
| "position_warnings (patch # patches) =
     (if (operation patch = MOVE \<or> operation patch = RESIZE) \<and> truthy (new_position patch) then
        (case new_position patch of
           None \<Rightarrow> []
         | Some pos \<Rightarrow>
             if dict_get pos ''x'' 0 < 0 \<or> dict_get pos ''y'' 0 < 0
             then [''Moving field to negative coordinates may make it invisible'']
             else [])
      else [])
     @ position_warnings patches"

definition generate_warnings :: "ReportMetadata \<Rightarrow> EditPatch list \<Rightarrow> string list" where
  "generate_warnings metadata patches =
     (let rename_patches = filter (\<lambda>p. operation p = RENAME) patches in
      hide_warnings metadata patches
      @ (if length rename_patches > 5
         then [''Renaming '' @ str_nat (length rename_patches)
               @ '' fields at once may cause confusion'']
         else [])
      @ position_warnings patches)"

definition estimate_impact :: "EditPatch list \<Rightarrow> string" where
  "estimate_impact patches =
     (let total_patches = length patches in
      if total_patches = 1 then ''Low impact - single field change''
      else if total_patches \<le> 5
      then ''Medium impact - '' @ str_nat total_patches @ '' field changes''
      else ''High impact - '' @ str_nat total_patches
           @ '' field changes across multiple operations'')"

subsection \<open>The HTML diff\<close>

text \<open>
  \<open>changes_by_section\<close> is a dict in insertion order: an association list whose keys
  appear in the order of their first insertion.
\<close>

fun add_change :: "string \<Rightarrow> 'a \<Rightarrow> (string \<times> 'a list) list \<Rightarrow> (string \<times> 'a list) list" where
  "add_change k v [] = [(k, [v])]"
| "add_change k v ((k', vs) # rest) =
     (if k = k' then (k', vs @ [v]) # rest else (k', vs) # add_change k v rest)"

fun group_changes ::
  "ReportMetadata \<Rightarrow> EditPatch list \<Rightarrow> (string \<times> (EditPatch \<times> ReportField) list) list
   \<Rightarrow> (string \<times> (EditPatch \<times> ReportField) list) list" where
  "group_changes original [] changes_by_section = changes_by_section"
| "group_changes original (patch # patches) changes_by_section =
     (case find_field_by_id original (target_field_id patch) of
        None \<Rightarrow> group_changes original patches changes_by_section
      | Some field \<Rightarrow>
          group_changes original patches
            (add_change (find_section_for_field original (target_field_id patch))
               (patch, field) changes_by_section))"

definition dquote :: string where
  "dquote = [CHR 0x22]"

text \<open>The lines of one change; reading \<open>x\<close> or \<open>y\<close> of the position raises KeyError on a missing key.\<close>

definition change_html :: "EditPatch \<times> ReportField \<Rightarrow> error + string list" where
  "change_html change =
     (case change of (patch, field) \<Rightarrow>
        let css_class = (if operation patch = HIDE then ''diff-removed''
                         else if operation patch = SHOW then ''diff-added''
                         else ''diff-modified'');
            head = [''<div class='' @ dquote @ ''diff-field '' @ css_class @ dquote @ ''>'',
                    ''<strong>'' @ f_name field @ ''</strong> (''
                      @ FieldType_value (field_type field) @ '')<br>'',
                    ''Operation: '' @ EditPatchOperation_value (operation patch) @ ''<br>''];
            renamed = (if operation patch = RENAME \<and> truthy (new_name patch)
                       then [''New name: '' @ the (new_name patch) @ ''<br>''] else []);
            descr = (if truthy (p_description patch)
                     then [''Description: '' @ the (p_description patch) @ ''<br>''] else [])
        in
        if truthy (new_position patch) then
          (case map_of (the (new_position patch)) ''x'' of
             None \<Rightarrow> Inl (KeyError ''x'')
           | Some px \<Rightarrow>
               (case map_of (the (new_position patch)) ''y'' of
                  None \<Rightarrow> Inl (KeyError ''y'')
                | Some py \<Rightarrow>
                    Inr (head @ renamed
                         @ [''New position: x='' @ str_int px @ '', y='' @ str_int py @ ''<br>'']
                         @ descr @ [''</div>''])))
        else Inr (head @ renamed @ descr @ [''</div>'']))"

fun changes_html :: "(EditPatch \<times> ReportField) list \<Rightarrow> error + string list" where
  "changes_html [] = Inr []"
| "changes_html (change # changes) =
     (case change_html change of
        Inl e \<Rightarrow> Inl e
      | Inr ls \<Rightarrow> (case changes_html changes of Inl e \<Rightarrow> Inl e | Inr rest \<Rightarrow> Inr (ls @ rest)))"

fun sections_html ::
  "(string \<times> (EditPatch \<times> ReportField) list) list \<Rightarrow> error + string list" where
  "sections_html [] = Inr []"
| "sections_html ((section_name, changes) # others) =
     (case changes_html changes of
        Inl e \<Rightarrow> Inl e
      | Inr ls \<Rightarrow>
          (case sections_html others of
             Inl e \<Rightarrow> Inl e
           | Inr rest \<Rightarrow>
               Inr ((''<div class='' @ dquote @ ''diff-section'' @ dquote @ ''>Section: ''
                     @ section_name @ ''</div>'')
                    # ls @ rest)))"

definition html_header :: "string list" where
  "html_header =
     [''<div class='' @ dquote @ ''crystal-report-diff'' @ dquote @ ''>'',
      ''<style>'',
      ''.diff-field { border: 1px solid #ccc; margin: 5px; padding: 10px; }'',
      ''.diff-added { background-color: #d4edda; border-color: #c3e6cb; }'',
      ''.diff-removed { background-color: #f8d7da; border-color: #f5c6cb; }'',
      ''.diff-modified { background-color: #fff3cd; border-color: #ffeaa7; }'',
      ''.diff-section { font-weight: bold; margin-top: 20px; }'',
      ''</style>'']"

definition generate_html_diff ::
  "ReportMetadata \<Rightarrow> ReportMetadata \<Rightarrow> EditPatch list \<Rightarrow> error + string" where
  "generate_html_diff original modified patches =
     (case sections_html (group_changes original patches []) of
        Inl e \<Rightarrow> Inl e
      | Inr ls \<Rightarrow> Inr (join [CHR 0x0A] (html_header @ ls @ [''</div>''])))"

subsection \<open>preview\_edits\<close>

record EditPreviewResponse =
  pr_patches :: "EditPatch list"
  affected_fields :: "ReportField list"
  html_diff :: string
  warnings :: "string list"
  estimated_impact :: string

fun collect_affected :: "ReportMetadata \<Rightarrow> EditPatch list \<Rightarrow> ReportField list" where
  "collect_affected metadata [] = []"
| "collect_affected metadata (patch # patches) =
     (case find_field_by_id metadata (target_field_id patch) of
        None \<Rightarrow> collect_affected metadata patches
      | Some field \<Rightarrow> field # collect_affected metadata patches)"

text \<open>The \<open>except\<close> clause of the method logs and raises the exception again.\<close>

definition preview_edits :: "ReportMetadata \<Rightarrow> EditPatch list \<Rightarrow> error + EditPreviewResponse" where
  "preview_edits metadata patches =
     (let validation_errors = validate_patches metadata patches in
      if validation_errors \<noteq> [] then Inl (ValueError (validation_message validation_errors))
      else
        let preview_metadata = apply_patches_to_metadata metadata patches True in
        case generate_html_diff metadata preview_metadata patches of
          Inl e \<Rightarrow> Inl e
        | Inr html \<Rightarrow>
            Inr \<lparr> pr_patches = patches,
                  affected_fields = collect_affected metadata patches,
                  html_diff = html,
                  warnings = generate_warnings metadata patches,
                  estimated_impact = estimate_impact patches \<rparr>)"

subsection \<open>Change-log entries\<close>

datatype json = JNull | JBool bool | JInt int | JStr string | JDict "(string \<times> json) list"

text \<open>
  The generated \<open>id\<close> and \<open>timestamp\<close> of an entry (a fresh UUID and the clock) are
  left out of the record.
\<close>

record ChangeLogEntry =
  report_id :: string
  patch_id :: string
  cl_operation :: EditPatchOperation
  field_name :: string
  field_id :: string
  before_value :: "json option"
  after_value :: "json option"
  user_id :: "string option"
  cl_description :: "string option"
  cl_success :: bool
  error_message :: "string option"

definition json_opt_str :: "string option \<Rightarrow> json" where
  "json_opt_str v = (case v of None \<Rightarrow> JNull | Some s \<Rightarrow> JStr s)"

definition before_after :: "ReportField \<Rightarrow> EditPatch \<Rightarrow> json option \<times> json option" where
  "before_after field patch =
     (case operation patch of
        HIDE \<Rightarrow> (Some (JDict [(''visible'', JBool (f_visible field))]),
                 Some (JDict [(''visible'', JBool False)]))
      | SHOW \<Rightarrow> (Some (JDict [(''visible'', JBool (f_visible field))]),
                 Some (JDict [(''visible'', JBool True)]))
      | RENAME \<Rightarrow> (Some (JDict [(''display_name'', json_opt_str (display_name field))]),
                   Some (JDict [(''display_name'', json_opt_str (new_name patch))]))
      | MOVE \<Rightarrow> (Some (JDict [(''x'', JInt (f_x field)), (''y'', JInt (f_y field)),
                               (''width'', JInt (f_width field)), (''height'', JInt (f_height field))]),
                 map_option (\<lambda>pos. JDict (map (\<lambda>(k, v). (k, JInt v)) pos)) (new_position patch))
      | RESIZE \<Rightarrow> (Some (JDict [(''x'', JInt (f_x field)), (''y'', JInt (f_y field)),
                               (''width'', JInt (f_width field)), (''height'', JInt (f_height field))]),
                   map_option (\<lambda>pos. JDict (map (\<lambda>(k, v). (k, JInt v)) pos)) (new_position patch))
      | FORMAT \<Rightarrow> (map_option (\<lambda>fm. JDict (map (\<lambda>(k, v). (k, JStr v)) fm)) (f_format field),
                   map_option (\<lambda>fm. JDict (map (\<lambda>(k, v). (k, JStr v)) fm)) (new_format patch))
      | DELETE \<Rightarrow> (None, None))"

definition create_change_log_entry ::
  "ReportMetadata \<Rightarrow> EditPatch \<Rightarrow> string option \<Rightarrow> bool \<Rightarrow> string option \<Rightarrow> ChangeLogEntry" where
  "create_change_log_entry metadata patch uid succ error_msg =
     (let field = find_field_by_id metadata (target_field_id patch);
          fname = (case field of None \<Rightarrow> ''Unknown'' | Some f \<Rightarrow> f_name f);
          ba = (case field of None \<Rightarrow> (None, None) | Some f \<Rightarrow> before_after f patch)
      in \<lparr> report_id = md_id metadata, patch_id = p_id patch, cl_operation = operation patch,
            field_name = fname, field_id = target_field_id patch,
            before_value = fst ba, after_value = snd ba,
            user_id = uid, cl_description = p_description patch,
            cl_success = succ, error_message = error_msg \<rparr>)"

subsection \<open>apply\_edits\<close>

text \<open>
  What the method cannot decide by itself is given by the environment: whether the
  report file exists, whether copying it to the backup raises (and the path of the backup
  otherwise), and for which patches the call of \<open>_apply_single_patch\<close> raises, with the
  message. The calls made on the file system and on the report file are returned as a
  list of effects beside the response.
\<close>

record apply_env =
  file_exists :: bool
  backup_result :: "string + string"
  single_patch_error :: "EditPatch \<Rightarrow> string option"

datatype effect = BackupCreated string | MutationCall string

record ApplyEditsResponse =
  success :: bool
  applied_patches :: "string list"
  failed_patches :: "(string \<times> string) list"
  backup_path :: "string option"
  change_log_entries :: "ChangeLogEntry list"

record loop_state =
  ls_applied :: "string list"
  ls_failed :: "(string \<times> string) list"
  ls_entries :: "ChangeLogEntry list"
  ls_effects :: "effect list"

text \<open>The body of \<open>for patch in patches\<close>, with its own \<open>try\<close>/\<open>except\<close>.\<close>

definition apply_one ::
  "apply_env \<Rightarrow> ReportMetadata \<Rightarrow> string option \<Rightarrow> bool \<Rightarrow> loop_state \<Rightarrow> EditPatch \<Rightarrow> loop_state" where
  "apply_one env metadata uid dry_run st patch =
     (let raised = (if \<not> dry_run then single_patch_error env patch else None);
          effs = (if \<not> dry_run then ls_effects st @ [MutationCall (p_id patch)]
                  else ls_effects st)
      in case raised of
           None \<Rightarrow>
             st \<lparr> ls_entries := ls_entries st
                      @ [create_change_log_entry metadata patch uid True None],
                  ls_applied := ls_applied st @ [p_id patch],
                  ls_effects := effs \<rparr>
         | Some error_msg \<Rightarrow>
             st \<lparr> ls_failed := ls_failed st @ [(p_id patch, error_msg)],
                  ls_entries := ls_entries st
                      @ [create_change_log_entry metadata patch uid False (Some error_msg)],
                  ls_effects := effs \<rparr>)"

definition apply_loop ::
  "apply_env \<Rightarrow> ReportMetadata \<Rightarrow> string option \<Rightarrow> bool \<Rightarrow> EditPatch list \<Rightarrow> loop_state
   \<Rightarrow> loop_state" where
  "apply_loop env metadata uid dry_run patches st =
     foldl (apply_one env metadata uid dry_run) st patches"

definition finish_apply ::
  "apply_env \<Rightarrow> ReportMetadata \<Rightarrow> string option \<Rightarrow> bool \<Rightarrow> EditPatch list \<Rightarrow> string option
   \<Rightarrow> effect list \<Rightarrow> ApplyEditsResponse \<times> effect list" where
  "finish_apply env metadata uid dry_run patches backup effs =
     (let st = apply_loop env metadata uid dry_run patches
                 \<lparr> ls_applied = [], ls_failed = [], ls_entries = [], ls_effects = effs \<rparr>
      in (\<lparr> success = (length (ls_failed st) = 0),
             applied_patches = ls_applied st,
             failed_patches = ls_failed st,
             backup_path = backup,
             change_log_entries = ls_entries st \<rparr>,
          ls_effects st))"

text \<open>
  The outer \<open>except\<close> returns the single failed entry \<open>all\<close>; validation and the backup
  are the two places outside the loop that raise, both before any patch is handled.
\<close>

definition apply_edits ::
  "apply_env \<Rightarrow> ReportMetadata \<Rightarrow> EditPatch list \<Rightarrow> string option \<Rightarrow> bool \<Rightarrow> bool
   \<Rightarrow> ApplyEditsResponse \<times> effect list" where
  "apply_edits env metadata patches uid dry_run create_backup =
     (let validation_errors = validate_patches metadata patches in
      if validation_errors \<noteq> [] then
        (\<lparr> success = False, applied_patches = [],
            failed_patches = [(''all'', validation_message validation_errors)],
            backup_path = None, change_log_entries = [] \<rparr>, [])
      else if create_backup \<and> \<not> dry_run \<and> file_exists env then
        (case backup_result env of
           Inl e \<Rightarrow>
             (\<lparr> success = False, applied_patches = [], failed_patches = [(''all'', e)],
                 backup_path = None, change_log_entries = [] \<rparr>, [])
         | Inr path \<Rightarrow>
             finish_apply env metadata uid dry_run patches (Some path) [BackupCreated path])
      else finish_apply env metadata uid dry_run patches None [])"

subsection \<open>Sample data\<close>

text \<open>A small report and patches on it, used to run the definitions on concrete inputs.\<close>

definition sample_field :: "string \<Rightarrow> string \<Rightarrow> FieldType \<Rightarrow> bool \<Rightarrow> ReportField" where
  "sample_field fid nm ty vis =
     \<lparr> f_id = fid, f_name = nm, display_name = Some nm, field_type = ty, f_section = DETAILS,
       f_x = 0, f_y = 0, f_width = 100, f_height = 20, f_visible = vis,
       f_formula = None, f_format = None, database_field = None \<rparr>"

definition sample_metadata :: ReportMetadata where
  "sample_metadata =
     \<lparr> md_id = ''r1'', md_filename = ''sales.rpt'', title = None, md_description = None,
       author = None,
       sections =
         [\<lparr> s_id = ''s1'', section_type = DETAILS, s_name = ''Details'', s_height = 40,
            s_visible = True,
            s_fields = [sample_field ''f1'' ''Amount'' CURRENCY False,
                        sample_field ''f2'' ''Total'' FORMULA True,
                        sample_field ''f3'' ''Customer'' STRING True] \<rparr>],
       parameters = [sample_field ''q1'' ''Region'' PARAMETER True],
       formulas = [],
       database_connections =
         [\<lparr> driver = ''odbc'', server = None, database = None, username = None,
            connection_string = None \<rparr>],
       tables = [''Orders'', ''Customers''],
       md_status = READY, md_file_size = 2048, md_error_message = None \<rparr>"

definition sample_patch :: "string \<Rightarrow> EditPatchOperation \<Rightarrow> string \<Rightarrow> EditPatch" where
  "sample_patch pid op target =
     \<lparr> p_id = pid, operation = op, target_field_id = target, target_section_id = None,
       new_name = None, new_position = None, new_format = None, p_visible = None,
       p_description = None \<rparr>"

definition sample_env :: apply_env where
  "sample_env =
     \<lparr> file_exists = True, backup_result = Inr ''uploads/r1_sales_backup.rpt'',
       single_patch_error = (\<lambda>p. if p_id p = ''p2'' then Some ''write failed'' else None) \<rparr>"

subsection \<open>Which patches raise, and whether the backup does\<close>

definition patch_raises :: "apply_env \<Rightarrow> bool \<Rightarrow> EditPatch \<Rightarrow> bool" where
  "patch_raises env dry_run patch = (\<not> dry_run \<and> single_patch_error env patch \<noteq> None)"

definition backup_raises :: "apply_env \<Rightarrow> bool \<Rightarrow> bool \<Rightarrow> bool" where
  "backup_raises env dry_run create_backup =
     (create_backup \<and> \<not> dry_run \<and> file_exists env \<and> isl (backup_result env))"

section \<open>Query suggestions (app/api/v1/endpoints/query.py)\<close>

text \<open>\<open>if x not in xs: xs.append(x)\<close>\<close>

definition append_new :: "'a \<Rightarrow> 'a list \<Rightarrow> 'a list" where
  "append_new x xs = (if x \<in> set xs then xs else xs @ [x])"

text \<open>
  \<open>list(dict.fromkeys(xs))\<close>: the keys of a dict keep the order of their first
  insertion, and inserting a key that is present changes nothing.
\<close>

definition dedup :: "'a list \<Rightarrow> 'a list" where
  "dedup xs = foldl (\<lambda>keys x. append_new x keys) [] xs"

text \<open>
  The body of the loop over the fields of a section, on the three lists
  \<open>field_names\<close>, \<open>formula_fields\<close> and \<open>currency_fields\<close>.
\<close>

definition collect_field ::
  "string list \<times> string list \<times> string list \<Rightarrow> ReportField
   \<Rightarrow> string list \<times> string list \<times> string list" where
  "collect_field acc field =
     (case acc of (field_names, formula_fields, currency_fields) \<Rightarrow>
        (append_new (f_name field) field_names,
         (if field_type field = FORMULA then append_new (f_name field) formula_fields
          else formula_fields),
         (if field_type field = CURRENCY then append_new (f_name field) currency_fields
          else currency_fields)))"

definition collect_names :: "ReportMetadata \<Rightarrow> string list \<times> string list \<times> string list" where
  "collect_names metadata =
     foldl (\<lambda>acc section. foldl collect_field acc (s_fields section)) ([], [], [])
       (sections metadata)"

definition field_names :: "ReportMetadata \<Rightarrow> string list" where
  "field_names metadata = fst (collect_names metadata)"

definition formula_fields :: "ReportMetadata \<Rightarrow> string list" where
  "formula_fields metadata = fst (snd (collect_names metadata))"

definition currency_fields :: "ReportMetadata \<Rightarrow> string list" where
  "currency_fields metadata = snd (snd (collect_names metadata))"

definition basic_questions :: "string list" where
  "basic_questions =
     [''What sections does this report have?'',
      ''How many fields are in this report?'',
      ''What database tables are used?'']"

fun field_questions :: "string list \<Rightarrow> string list" where
  "field_questions [] = []"
| "field_questions (fname # sample_fields) =
     (''Where does '' @ fname @ '' come from?'')
     # (''Show me details about the '' @ fname @ '' field'')
     # field_questions sample_fields"

definition formula_questions :: "string list \<Rightarrow> string list" where
  "formula_questions ffs =
     (case ffs of
        [] \<Rightarrow> []
      | first # _ \<Rightarrow>
          ''Which fields use formulas?''
          # (if first \<noteq> [] then [''What is the formula for '' @ first @ ''?''] else []))"

definition currency_questions :: "string list \<Rightarrow> string list" where
  "currency_questions cfs =
     (case cfs of
        [] \<Rightarrow> []
      | first # _ \<Rightarrow>
          ''Show me all currency fields''
          # (if first \<noteq> [] then [''How is '' @ first @ '' calculated?''] else []))"

definition connection_questions :: "ReportMetadata \<Rightarrow> string list" where
  "connection_questions metadata =
     (if database_connections metadata \<noteq> []
      then [''What database connections are configured?''] else [])"

definition table_questions :: "ReportMetadata \<Rightarrow> string list" where
  "table_questions metadata =
     (if tables metadata \<noteq> [] then
        ''What tables are used in this report?''
        # (if length (tables metadata) > 1 then [''How are the tables related?''] else [])
      else [])"

definition parameter_questions :: "ReportMetadata \<Rightarrow> string list" where
  "parameter_questions metadata =
     (if parameters metadata \<noteq> [] then
        ''What parameters does this report have?''
        # map (\<lambda>p. ''How is the '' @ f_name p @ '' parameter used?'')
              (take 2 (parameters metadata))
      else [])"

definition section_questions :: "ReportMetadata \<Rightarrow> string list" where
  "section_questions metadata =
     (let section_types = set (map section_type (sections metadata)) in
      (if DETAILS \<in> section_types then [''What fields are in the Details section?''] else [])
      @ (if REPORT_HEADER \<in> section_types
         then [''What'' @ [CHR 0x27] @ ''s displayed in the report header?''] else [])
      @ (if REPORT_FOOTER \<in> section_types
         then [''What totals are shown in the footer?''] else []))"

text \<open>The list \<open>suggestions\<close> before duplicates are removed.\<close>

definition all_suggestions :: "ReportMetadata \<Rightarrow> string list" where
  "all_suggestions metadata =
     basic_questions
     @ field_questions (take 3 (field_names metadata))
     @ formula_questions (formula_fields metadata)
     @ currency_questions (currency_fields metadata)
     @ connection_questions metadata
     @ table_questions metadata
     @ parameter_questions metadata
     @ section_questions metadata"

definition generate_query_suggestions :: "ReportMetadata \<Rightarrow> string list" where
  "generate_query_suggestions metadata = take 15 (dedup (all_suggestions metadata))"

text \<open>The sample report without a database connection.\<close>

definition sample_metadata_no_connection :: ReportMetadata where
  "sample_metadata_no_connection = sample_metadata \<lparr> database_connections := [] \<rparr>"

section \<open>Storage service (app/services/storage.py)\<close>

text \<open>
  The table \<open>reports\<close>, keyed by its primary key \<open>id\<close>. The column
  \<open>metadata_json\<close> holds the stored metadata or is NULL. A failure of the database
  itself (a locked or unwritable file) is not decided by the code: each operation takes
  the fault, if any, as its first argument and raises it.
\<close>

record report_row =
  r_filename :: string
  r_file_path :: string
  r_file_size :: int
  r_status :: ReportStatus
  r_error_message :: "string option"
  metadata_json :: "ReportMetadata option"

type_synonym storage = "string \<rightharpoonup> report_row"

definition create_report_record ::
  "string option \<Rightarrow> string \<Rightarrow> string \<Rightarrow> int \<Rightarrow> string \<Rightarrow> storage \<Rightarrow> error + storage" where
  "create_report_record fault rid filename file_size file_path db =
     (case fault of
        Some e \<Rightarrow> Inl (Unhandled e)
      | None \<Rightarrow>
          if db rid \<noteq> None then Inl (Unhandled ''UNIQUE constraint failed: reports.id'')
          else Inr (db (rid \<mapsto>
                 \<lparr> r_filename = filename, r_file_path = file_path, r_file_size = file_size,
                   r_status = UPLOADING, r_error_message = None, metadata_json = None \<rparr>)))"

definition store_metadata ::
  "string option \<Rightarrow> string \<Rightarrow> ReportMetadata \<Rightarrow> storage \<Rightarrow> error + storage" where
  "store_metadata fault rid metadata db =
     (case fault of
        Some e \<Rightarrow> Inl (Unhandled e)
      | None \<Rightarrow>
          (case db rid of
             None \<Rightarrow> Inr db
           | Some row \<Rightarrow> Inr (db (rid \<mapsto> row \<lparr> metadata_json := Some metadata \<rparr>))))"

definition update_report_status ::
  "string option \<Rightarrow> string \<Rightarrow> ReportStatus \<Rightarrow> string option \<Rightarrow> storage \<Rightarrow> error + storage" where
  "update_report_status fault rid status error_msg db =
     (case fault of
        Some e \<Rightarrow> Inl (Unhandled e)
      | None \<Rightarrow>
          (case db rid of
             None \<Rightarrow> Inr db
           | Some row \<Rightarrow>
               Inr (db (rid \<mapsto> row \<lparr> r_status := status, r_error_message := error_msg \<rparr>))))"

definition get_metadata :: "storage \<Rightarrow> string \<Rightarrow> ReportMetadata option" where
  "get_metadata db rid = (case db rid of None \<Rightarrow> None | Some row \<Rightarrow> metadata_json row)"

definition get_report_status :: "storage \<Rightarrow> string \<Rightarrow> report_row option" where
  "get_report_status db rid = db rid"

definition status_of :: "storage \<Rightarrow> string \<Rightarrow> ReportStatus option" where
  "status_of db rid = map_option r_status (db rid)"

section \<open>Upload endpoint (app/api/v1/endpoints/upload.py)\<close>

subsection \<open>Settings (app/core/config.py)\<close>

record Settings =
  MAX_FILE_SIZE :: int
  UPLOAD_DIR :: string
  ALLOWED_EXTENSIONS :: "string list"

definition default_settings :: Settings where
  "default_settings =
     \<lparr> MAX_FILE_SIZE = 25 * 1024 * 1024, UPLOAD_DIR = ''./uploads'',
       ALLOWED_EXTENSIONS = [''.rpt''] \<rparr>"

subsection \<open>\<open>Path(name).suffix.lower()\<close>\<close>

fun split_on :: "char \<Rightarrow> string \<Rightarrow> string list" where
  "split_on c [] = [[]]"
| "split_on c (x # xs) =
     (if x = c then [] # split_on c xs
      else (case split_on c xs of [] \<Rightarrow> [[x]] | w # ws \<Rightarrow> (x # w) # ws))"

text \<open>The last component of a POSIX path; empty and \<open>.\<close> components are dropped.\<close>

definition path_name :: "string \<Rightarrow> string" where
  "path_name p =
     (case filter (\<lambda>s. s \<noteq> [] \<and> s \<noteq> ''.'') (split_on CHR ''/'' p) of
        [] \<Rightarrow> []
      | part # parts \<Rightarrow> last (part # parts))"

definition path_suffix :: "string \<Rightarrow> string" where
  "path_suffix p =
     (let name = path_name p; i = rfind CHR ''.'' name in
      if 0 < i \<and> i < int (length name) - 1 then drop (nat i) name else [])"

definition lower_char :: "char \<Rightarrow> char" where
  "lower_char c =
     (if 65 \<le> (of_char c :: nat) \<and> (of_char c :: nat) \<le> 90
      then char_of ((of_char c :: nat) + 32) else c)"

definition lower :: "string \<Rightarrow> string" where
  "lower s = map lower_char s"

subsection \<open>upload\_report\<close>

text \<open>
  The state the endpoint works on: the files on disk (path to content), the reports table
  and the background tasks scheduled so far (file path and report id). The environment
  gives the fresh UUID and the faults of the directory creation, the file write and the
  database.
\<close>

record system_state =
  files :: "string \<rightharpoonup> string"
  reports :: storage
  background_tasks :: "(string \<times> string) list"

record upload_env =
  new_uuid :: string
  mkdir_fault :: "string option"
  write_fault :: "string option"
  db_fault :: "string option"

record UploadResponse =
  ur_report_id :: string
  ur_filename :: string
  ur_file_size :: int
  ur_status :: ReportStatus
  ur_message :: string

fun error_text :: "error \<Rightarrow> string" where
  "error_text (ValueError m) = m"
| "error_text (KeyError m) = m"
| "error_text (HTTPException code d) = str_nat code"
| "error_text (Unhandled m) = m"

definition upload_report ::
  "Settings \<Rightarrow> upload_env \<Rightarrow> string option \<Rightarrow> string \<Rightarrow> system_state
   \<Rightarrow> (error + UploadResponse) \<times> system_state" where
  "upload_report settings env filename content st =
     (case filename of
        None \<Rightarrow> (Inl (HTTPException 400 NoFilename), st)
      | Some fname \<Rightarrow>
          if fname = [] then (Inl (HTTPException 400 NoFilename), st)
          else if lower (path_suffix fname) \<notin> set (ALLOWED_EXTENSIONS settings)
          then (Inl (HTTPException 400 (UnsupportedFileType (ALLOWED_EXTENSIONS settings))), st)
          else
            let file_size = int (length content) in
            if file_size > MAX_FILE_SIZE settings
            then (Inl (HTTPException 413 (FileTooLarge (MAX_FILE_SIZE settings))), st)
            else if file_size = 0 then (Inl (HTTPException 400 EmptyFile), st)
            else
              (case mkdir_fault env of
                 Some e \<Rightarrow> (Inl (Unhandled e), st)
               | None \<Rightarrow>
                   let rid = new_uuid env;
                       file_path = UPLOAD_DIR settings @ ''/'' @ rid @ ''_'' @ fname
                   in
                   (case write_fault env of
                      Some e \<Rightarrow>
                        (Inl (HTTPException 500 (UploadFailed e)),
                         st \<lparr> files := (files st) (file_path := None) \<rparr>)
                    | None \<Rightarrow>
                        (case create_report_record (db_fault env) rid fname file_size file_path
                                (reports st) of
                           Inl err \<Rightarrow>
                             (Inl (HTTPException 500 (UploadFailed (error_text err))),
                              st \<lparr> files := (files st) (file_path := None) \<rparr>)
                         | Inr db \<Rightarrow>
                             (Inr \<lparr> ur_report_id = rid, ur_filename = fname,
                                    ur_file_size = file_size, ur_status = PARSING,
                                    ur_message =
                                      ''File uploaded successfully. Processing in background.'' \<rparr>,
                              st \<lparr> files := (files st) (file_path \<mapsto> content),
                                   reports := db,
                                   background_tasks :=
                                     background_tasks st @ [(file_path, rid)] \<rparr>)))))"

subsection \<open>process\_report\_background\<close>

text \<open>
  The environment of the task: the result of the parser (its exception message or the
  metadata), the database faults of the three storage calls, and a failure of
  \<open>file_path.stat()\<close> in the logging after the status update. The task returns the
  storage states it goes through, the first being the state it starts in, and the
  exception that leaves the task, if any (the \<open>except\<close> branch's own status update can
  raise). The logging at the end of the \<open>except\<close> branch comes after the last storage
  call and changes no state; it is left out.
\<close>

record task_env =
  parse_result :: "string + ReportMetadata"
  store_fault :: "string option"
  ready_fault :: "string option"
  stat_fault :: "string option"
  error_fault :: "string option"

definition on_exception ::
  "task_env \<Rightarrow> string \<Rightarrow> string \<Rightarrow> storage list \<Rightarrow> storage \<Rightarrow> storage list \<times> error option" where
  "on_exception env rid error_msg trace db =
     (case update_report_status (error_fault env) rid ERROR (Some error_msg) db of
        Inl err \<Rightarrow> (trace, Some err)
      | Inr db' \<Rightarrow> (trace @ [db'], None))"

definition process_report_background ::
  "task_env \<Rightarrow> string \<Rightarrow> storage \<Rightarrow> storage list \<times> error option" where
  "process_report_background env rid db =
     (case parse_result env of
        Inl e \<Rightarrow> on_exception env rid e [db] db
      | Inr metadata \<Rightarrow>
          (case store_metadata (store_fault env) rid metadata db of
             Inl err \<Rightarrow> on_exception env rid (error_text err) [db] db
           | Inr db1 \<Rightarrow>
               (case update_report_status (ready_fault env) rid READY None db1 of
                  Inl err \<Rightarrow> on_exception env rid (error_text err) [db, db1] db1
                | Inr db2 \<Rightarrow>
                    (case stat_fault env of
                       Some e \<Rightarrow> on_exception env rid e [db, db1, db2] db2
                     | None \<Rightarrow> ([db, db1, db2], None)))))"

subsection \<open>Sample upload\<close>

definition sample_settings :: Settings where
  "sample_settings = \<lparr> MAX_FILE_SIZE = 4, UPLOAD_DIR = ''up'', ALLOWED_EXTENSIONS = [''.rpt''] \<rparr>"

definition sample_upload_env :: upload_env where
  "sample_upload_env =
     \<lparr> new_uuid = ''r1'', mkdir_fault = None, write_fault = None, db_fault = None \<rparr>"

definition empty_state :: system_state where
  "empty_state = \<lparr> files = Map.empty, reports = Map.empty, background_tasks = [] \<rparr>"

definition sample_row :: report_row where
  "sample_row =
     \<lparr> r_filename = ''sales.rpt'', r_file_path = ''up/r1_sales.rpt'', r_file_size = 4,
       r_status = UPLOADING, r_error_message = None, metadata_json = None \<rparr>"

definition sample_task_env :: task_env where
  "sample_task_env =
     \<lparr> parse_result = Inr sample_metadata, store_fault = None, ready_fault = None,
       stat_fault = None, error_fault = None \<rparr>"

section \<open>Properties\<close>

subsection \<open>Position validation\<close>

lemma validate_position_accepts:
  assumes "\<forall>key \<in> set required_keys. \<exists>n. map_of d key = Some n \<and> 0 \<le> n"
  shows "validate_position (Some d) = Inr (Some d)"
proof -
  have a: "list_all (\<lambda>key. map_of d key \<noteq> None) required_keys"
    using assms by (auto simp: list_all_iff)
  have b: "list_all (\<lambda>key. case map_of d key of None \<Rightarrow> False | Some n \<Rightarrow> 0 \<le> n) required_keys"
    using assms by (auto simp: list_all_iff)
  show ?thesis using a b by (simp add: validate_position_def)
qed

lemma validate_position_rejects:
  assumes "key \<in> set required_keys"
    and "map_of d key = None \<or> (\<exists>n. map_of d key = Some n \<and> n < 0)"
  shows "\<exists>msg. validate_position (Some d) = Inl (ValueError msg)"
proof (cases "list_all (\<lambda>key. map_of d key \<noteq> None) required_keys")
  case False
  then show ?thesis by (simp add: validate_position_def)
next
  case True
  with assms obtain n where n: "map_of d key = Some n" "n < 0"
    by (auto simp: list_all_iff)
  have "\<not> (case map_of d key of None \<Rightarrow> False | Some n \<Rightarrow> 0 \<le> n)"
    using n by simp
  with assms(1)
  have "\<not> list_all (\<lambda>key. case map_of d key of None \<Rightarrow> False | Some n \<Rightarrow> 0 \<le> n) required_keys"
    unfolding list_all_iff by blast
  with True show ?thesis by (simp add: validate_position_def)
qed

text \<open>
  C6. Constructing an EditPatch whose \<open>new_position\<close> misses one of the keys x, y,
  width, height, or holds a negative value under one of them, fails with a ValueError
  (the invalid-input error of the model class); with all four keys present and
  non-negative the construction succeeds and keeps the position map.
\<close>

theorem EditPatch_position_validated:
  "(key \<in> set [''x'', ''y'', ''width'', ''height''] \<and>
      (map_of d key = None \<or> (\<exists>n. map_of d key = Some n \<and> n < 0))
    \<longrightarrow> (\<exists>msg. EditPatch_new pid op target sec nm (Some d) fmt vis descr = Inl (ValueError msg)))
   \<and>
   ((\<forall>k \<in> set [''x'', ''y'', ''width'', ''height'']. \<exists>n. map_of d k = Some n \<and> 0 \<le> n)
    \<longrightarrow> (\<exists>p. EditPatch_new pid op target sec nm (Some d) fmt vis descr = Inr p
             \<and> new_position p = Some d \<and> operation p = op \<and> target_field_id p = target))"
proof (intro conjI impI)
  assume "key \<in> set [''x'', ''y'', ''width'', ''height''] \<and>
      (map_of d key = None \<or> (\<exists>n. map_of d key = Some n \<and> n < 0))"
  then have "\<exists>msg. validate_position (Some d) = Inl (ValueError msg)"
    using validate_position_rejects [of key d] by (simp add: required_keys_def)
  then show "\<exists>msg. EditPatch_new pid op target sec nm (Some d) fmt vis descr = Inl (ValueError msg)"
    by (auto simp: EditPatch_new_def)
next
  assume "\<forall>k \<in> set [''x'', ''y'', ''width'', ''height'']. \<exists>n. map_of d k = Some n \<and> 0 \<le> n"
  then have "validate_position (Some d) = Inr (Some d)"
    using validate_position_accepts [of d] by (simp add: required_keys_def)
  then show "\<exists>p. EditPatch_new pid op target sec nm (Some d) fmt vis descr = Inr p
             \<and> new_position p = Some d \<and> operation p = op \<and> target_field_id p = target"
    by (simp add: EditPatch_new_def)
qed

theorem EditPatch_position_validated_witness:
  "(''width'' \<in> set [''x'', ''y'', ''width'', ''height''] \<and>
     map_of [(''x'', 10), (''y'', 20), (''width'', - 5), (''height'', 5 :: int)] ''width'' = Some (- 5) \<and>
     (\<exists>msg. EditPatch_new ''p1'' RESIZE ''f1'' None None
        (Some [(''x'', 10), (''y'', 20), (''width'', - 5), (''height'', 5)]) None None None
        = Inl (ValueError msg)))
   \<and> (\<exists>msg. EditPatch_new ''p1'' MOVE ''f1'' None None
        (Some [(''x'', 10), (''y'', 20), (''width'', 5)]) None None None
        = Inl (ValueError msg))
   \<and> (\<exists>p. EditPatch_new ''p1'' MOVE ''f1'' None None
        (Some [(''x'', 10), (''y'', 20), (''width'', 0), (''height'', 5)]) None None None = Inr p
        \<and> new_position p = Some [(''x'', 10), (''y'', 20), (''width'', 0), (''height'', 5)])"
  using EditPatch_position_validated
          [of "''width''" "[(''x'', 10), (''y'', 20), (''width'', - 5), (''height'', 5)]"
              "''p1''" RESIZE "''f1''" None None None None None]
        EditPatch_position_validated
          [of "''height''" "[(''x'', 10), (''y'', 20), (''width'', 5)]"
              "''p1''" MOVE "''f1''" None None None None None]
        EditPatch_position_validated
          [of "''x''" "[(''x'', 10), (''y'', 20), (''width'', 0), (''height'', 5)]"
              "''p1''" MOVE "''f1''" None None None None None]
  by auto

subsection \<open>Unique file names\<close>

lemma unique_loop_spec:
  "\<exists>k\<ge>c. unique_loop dir name ext c = new_filename name ext k
        \<and> new_filename name ext k |\<notin>| dir
        \<and> (\<forall>j. c \<le> j \<and> j < k \<longrightarrow> new_filename name ext j |\<in>| dir)"
proof (induction dir name ext c rule: unique_loop.induct)
  case (1 dir name ext counter)
  show ?case
  proof (cases "new_filename name ext counter |\<notin>| dir")
    case True
    then have "unique_loop dir name ext counter = new_filename name ext counter"
      by (simp add: unique_loop.simps)
    with True show ?thesis by (intro exI [of _ counter]) auto
  next
    case False
    from "1.IH" [OF False] obtain k where k: "Suc counter \<le> k"
      "unique_loop dir name ext (Suc counter) = new_filename name ext k"
      "new_filename name ext k |\<notin>| dir"
      "\<forall>j. Suc counter \<le> j \<and> j < k \<longrightarrow> new_filename name ext j |\<in>| dir"
      by blast
    from False have u: "unique_loop dir name ext counter = unique_loop dir name ext (Suc counter)"
      by (subst unique_loop.simps) simp
    have "\<forall>j. counter \<le> j \<and> j < k \<longrightarrow> new_filename name ext j |\<in>| dir"
    proof (intro allI impI)
      fix j assume j: "counter \<le> j \<and> j < k"
      show "new_filename name ext j |\<in>| dir"
      proof (cases "j = counter")
        case True with False show ?thesis by simp
      next
        case False with j k(4) show ?thesis by simp
      qed
    qed
    with k u show ?thesis by (intro exI [of _ k]) simp
  qed
qed

text \<open>
  C10. For every directory, given as the finite set of the names existing in it, and every
  filename, get_unique_filename returns (the function is total: the loop's termination
  is proved above) a name that is not in the directory. A filename that is not in the
  directory is returned unchanged; otherwise the result is the stem, \<open>_k\<close> and the
  extension, for the smallest positive \<open>k\<close> whose name is free.
\<close>

theorem get_unique_filename_spec:
  "get_unique_filename dir filename |\<notin>| dir
   \<and> (filename |\<notin>| dir \<longrightarrow> get_unique_filename dir filename = filename)
   \<and> (filename |\<in>| dir \<longrightarrow>
        (\<exists>k\<ge>1. get_unique_filename dir filename
                  = fst (splitext filename) @ ''_'' @ str_nat k @ snd (splitext filename)
             \<and> (\<forall>j. 1 \<le> j \<and> j < k \<longrightarrow>
                   fst (splitext filename) @ ''_'' @ str_nat j @ snd (splitext filename) |\<in>| dir)))"
proof (cases "filename |\<in>| dir")
  case False
  then show ?thesis by (simp add: get_unique_filename_def)
next
  case True
  obtain name ext where s: "splitext filename = (name, ext)" by (cases "splitext filename")
  from unique_loop_spec [of 1 dir name ext] obtain k where k: "1 \<le> k"
    "unique_loop dir name ext 1 = new_filename name ext k"
    "new_filename name ext k |\<notin>| dir"
    "\<forall>j. 1 \<le> j \<and> j < k \<longrightarrow> new_filename name ext j |\<in>| dir"
    by blast
  have g: "get_unique_filename dir filename = new_filename name ext k"
    using True s k(2) by (simp add: get_unique_filename_def)
  show ?thesis
  proof (intro conjI impI)
    show "get_unique_filename dir filename |\<notin>| dir" using g k(3) by simp
    show "get_unique_filename dir filename = filename" if "filename |\<notin>| dir"
      using that True by simp
    show "\<exists>k\<ge>1. get_unique_filename dir filename
                  = fst (splitext filename) @ ''_'' @ str_nat k @ snd (splitext filename)
             \<and> (\<forall>j. 1 \<le> j \<and> j < k \<longrightarrow>
                   fst (splitext filename) @ ''_'' @ str_nat j @ snd (splitext filename) |\<in>| dir)"
      using g k(1) k(4) s by (intro exI [of _ k]) (simp add: new_filename_def)
  qed
qed

theorem get_unique_filename_spec_witness:
  "''a.rpt'' |\<in>| {|''a.rpt'', ''a_1.rpt''|}
   \<and> get_unique_filename {|''a.rpt'', ''a_1.rpt''|} ''a.rpt'' = ''a_2.rpt''
   \<and> get_unique_filename {|''a.rpt'', ''a_1.rpt''|} ''a.rpt'' |\<notin>| {|''a.rpt'', ''a_1.rpt''|}
   \<and> ''b.rpt'' |\<notin>| {|''a.rpt'', ''a_1.rpt''|}
   \<and> get_unique_filename {|''a.rpt'', ''a_1.rpt''|} ''b.rpt'' = ''b.rpt''"
  using get_unique_filename_spec [of "{|''a.rpt'', ''a_1.rpt''|}" "''a.rpt''"]
        get_unique_filename_spec [of "{|''a.rpt'', ''a_1.rpt''|}" "''b.rpt''"]
  by (simp add: get_unique_filename_def splitext_def rfind_def unique_loop.simps
        new_filename_def str_nat.simps digit_char_def)

subsection \<open>Applying edits\<close>

lemma apply_one_ok:
  "\<not> patch_raises env dry p \<Longrightarrow>
   apply_one env md uid dry st p =
     st \<lparr> ls_entries := ls_entries st @ [create_change_log_entry md p uid True None],
          ls_applied := ls_applied st @ [p_id p],
          ls_effects := ls_effects st @ (if dry then [] else [MutationCall (p_id p)]) \<rparr>"
  by (auto simp: apply_one_def patch_raises_def)

lemma apply_one_raises:
  "patch_raises env dry p \<Longrightarrow>
   apply_one env md uid dry st p =
     st \<lparr> ls_failed := ls_failed st @ [(p_id p, the (single_patch_error env p))],
          ls_entries := ls_entries st
             @ [create_change_log_entry md p uid False (single_patch_error env p)],
          ls_effects := ls_effects st @ [MutationCall (p_id p)] \<rparr>"
  by (auto simp: apply_one_def patch_raises_def)

lemma apply_loop_Nil: "apply_loop env md uid dry [] st = st"
  by (simp add: apply_loop_def)

lemma apply_loop_Cons:
  "apply_loop env md uid dry (p # ps) st = apply_loop env md uid dry ps (apply_one env md uid dry st p)"
  by (simp add: apply_loop_def)

lemma apply_loop_applied:
  "ls_applied (apply_loop env md uid dry ps st) =
     ls_applied st @ map p_id (filter (\<lambda>p. \<not> patch_raises env dry p) ps)"
proof (induction ps arbitrary: st)
  case Nil show ?case by (simp add: apply_loop_Nil)
next
  case (Cons p ps)
  show ?case
    by (cases "patch_raises env dry p")
       (simp_all add: apply_loop_Cons Cons.IH apply_one_ok apply_one_raises)
qed

lemma apply_loop_failed:
  "ls_failed (apply_loop env md uid dry ps st) =
     ls_failed st @ map (\<lambda>p. (p_id p, the (single_patch_error env p)))
                        (filter (patch_raises env dry) ps)"
proof (induction ps arbitrary: st)
  case Nil show ?case by (simp add: apply_loop_Nil)
next
  case (Cons p ps)
  show ?case
    by (cases "patch_raises env dry p")
       (simp_all add: apply_loop_Cons Cons.IH apply_one_ok apply_one_raises)
qed

lemma apply_loop_entries:
  "ls_entries (apply_loop env md uid dry ps st) =
     ls_entries st @ map (\<lambda>p. create_change_log_entry md p uid (\<not> patch_raises env dry p)
                                 (if patch_raises env dry p then single_patch_error env p else None)) ps"
proof (induction ps arbitrary: st)
  case Nil show ?case by (simp add: apply_loop_Nil)
next
  case (Cons p ps)
  show ?case
    by (cases "patch_raises env dry p")
       (simp_all add: apply_loop_Cons Cons.IH apply_one_ok apply_one_raises)
qed

lemma apply_loop_effects_dry:
  "ls_effects (apply_loop env md uid True ps st) = ls_effects st"
proof (induction ps arbitrary: st)
  case Nil show ?case by (simp add: apply_loop_Nil)
next
  case (Cons p ps)
  have "\<not> patch_raises env True p" by (simp add: patch_raises_def)
  then show ?case by (simp add: apply_loop_Cons Cons.IH apply_one_ok)
qed

lemma apply_loop_effects_wet:
  "ls_effects (apply_loop env md uid False ps st) =
     ls_effects st @ map (\<lambda>p. MutationCall (p_id p)) ps"
proof (induction ps arbitrary: st)
  case Nil show ?case by (simp add: apply_loop_Nil)
next
  case (Cons p ps)
  show ?case
    by (cases "patch_raises env False p")
       (simp_all add: apply_loop_Cons Cons.IH apply_one_ok apply_one_raises)
qed

lemma apply_loop_effects:
  "ls_effects (apply_loop env md uid dry ps st) =
     ls_effects st @ (if dry then [] else map (\<lambda>p. MutationCall (p_id p)) ps)"
  by (cases dry) (simp_all add: apply_loop_effects_dry apply_loop_effects_wet)

lemma finish_apply_eq:
  "finish_apply env md uid dry ps backup effs =
     (\<lparr> success = (filter (patch_raises env dry) ps = []),
        applied_patches = map p_id (filter (\<lambda>p. \<not> patch_raises env dry p) ps),
        failed_patches = map (\<lambda>p. (p_id p, the (single_patch_error env p)))
                             (filter (patch_raises env dry) ps),
        backup_path = backup,
        change_log_entries =
          map (\<lambda>p. create_change_log_entry md p uid (\<not> patch_raises env dry p)
                     (if patch_raises env dry p then single_patch_error env p else None)) ps \<rparr>,
      effs @ (if dry then [] else map (\<lambda>p. MutationCall (p_id p)) ps))"
  by (simp add: finish_apply_def Let_def apply_loop_applied apply_loop_failed
        apply_loop_entries apply_loop_effects)

lemma apply_edits_valid:
  assumes "validate_patches md ps = []" and "\<not> backup_raises env dry cb"
  shows "\<exists>backup effs. apply_edits env md ps uid dry cb =
           finish_apply env md uid dry ps backup effs
         \<and> (dry \<longrightarrow> backup = None \<and> effs = [])"
  using assms
  by (cases "backup_result env") (auto simp: apply_edits_def backup_raises_def)

text \<open>
  C4. For a list of N patches that passes validation, of which exactly K raise in the
  per-patch application (and the backup step before the loop does not raise), the response
  has N - K applied patches, K failed patches, success exactly when K is 0, and N change-log
  entries, one per patch in order, whose success flag records the outcome of the patch.
  The applied ids are those of all the patches that do not raise, also after a failure.
\<close>

theorem apply_edits_accounting:
  assumes "validate_patches md ps = []" and "\<not> backup_raises env dry cb"
  shows "length (applied_patches (fst (apply_edits env md ps uid dry cb)))
           = length ps - length (filter (patch_raises env dry) ps)
       \<and> length (failed_patches (fst (apply_edits env md ps uid dry cb)))
           = length (filter (patch_raises env dry) ps)
       \<and> success (fst (apply_edits env md ps uid dry cb))
           = (length (filter (patch_raises env dry) ps) = 0)
       \<and> length (change_log_entries (fst (apply_edits env md ps uid dry cb))) = length ps
       \<and> map patch_id (change_log_entries (fst (apply_edits env md ps uid dry cb))) = map p_id ps
       \<and> map cl_success (change_log_entries (fst (apply_edits env md ps uid dry cb)))
           = map (\<lambda>p. \<not> patch_raises env dry p) ps
       \<and> applied_patches (fst (apply_edits env md ps uid dry cb))
           = map p_id (filter (\<lambda>p. \<not> patch_raises env dry p) ps)"
proof -
  from apply_edits_valid [OF assms] obtain backup effs where
    e: "apply_edits env md ps uid dry cb = finish_apply env md uid dry ps backup effs"
    by blast
  have l: "length (filter (\<lambda>p. \<not> patch_raises env dry p) ps)
             = length ps - length (filter (patch_raises env dry) ps)"
    using sum_length_filter_compl [of "patch_raises env dry" ps] by simp
  show ?thesis
    unfolding e finish_apply_eq
    by (simp add: l create_change_log_entry_def Let_def comp_def)
qed


text \<open>
  C9. For a valid patch list, a dry run makes no effect at all (no backup, no mutation
  call), returns no backup path, lists every patch id as applied and returns one change-log
  entry per patch with success true; these parts of the response are those of a run that
  is not dry and in which nothing raises.
\<close>

theorem apply_edits_dry_run:
  assumes "validate_patches md ps = []"
  shows "apply_edits env md ps uid True cb =
           (\<lparr> success = True, applied_patches = map p_id ps, failed_patches = [],
               backup_path = None,
               change_log_entries = map (\<lambda>p. create_change_log_entry md p uid True None) ps \<rparr>,
            [])
       \<and> ((\<forall>p \<in> set ps. single_patch_error env p = None) \<and> \<not> backup_raises env False cb \<longrightarrow>
            success (fst (apply_edits env md ps uid False cb))
              = success (fst (apply_edits env md ps uid True cb))
          \<and> applied_patches (fst (apply_edits env md ps uid False cb))
              = applied_patches (fst (apply_edits env md ps uid True cb))
          \<and> failed_patches (fst (apply_edits env md ps uid False cb))
              = failed_patches (fst (apply_edits env md ps uid True cb))
          \<and> change_log_entries (fst (apply_edits env md ps uid False cb))
              = change_log_entries (fst (apply_edits env md ps uid True cb)))"
proof -
  have nr: "\<And>p. \<not> patch_raises env True p" by (simp add: patch_raises_def)
  have dry: "apply_edits env md ps uid True cb =
           (\<lparr> success = True, applied_patches = map p_id ps, failed_patches = [],
               backup_path = None,
               change_log_entries = map (\<lambda>p. create_change_log_entry md p uid True None) ps \<rparr>,
            [])"
    using assms by (simp add: apply_edits_def finish_apply_eq nr)
  have wet: "success (fst (apply_edits env md ps uid False cb)) = True
          \<and> applied_patches (fst (apply_edits env md ps uid False cb)) = map p_id ps
          \<and> failed_patches (fst (apply_edits env md ps uid False cb)) = []
          \<and> change_log_entries (fst (apply_edits env md ps uid False cb))
              = map (\<lambda>p. create_change_log_entry md p uid True None) ps"
    if a: "\<forall>p \<in> set ps. single_patch_error env p = None" and b: "\<not> backup_raises env False cb"
  proof -
    from apply_edits_valid [OF assms b] obtain backup effs where
      e: "apply_edits env md ps uid False cb = finish_apply env md uid False ps backup effs"
      by blast
    have f: "filter (patch_raises env False) ps = []"
      using a by (simp add: patch_raises_def filter_empty_conv)
    have g: "filter (\<lambda>p. \<not> patch_raises env False p) ps = ps"
      using a by (simp add: patch_raises_def filter_id_conv)
    have h: "map (\<lambda>p. create_change_log_entry md p uid (\<not> patch_raises env False p)
                     (if patch_raises env False p then single_patch_error env p else None)) ps
             = map (\<lambda>p. create_change_log_entry md p uid True None) ps"
      using a by (simp add: patch_raises_def)
    show ?thesis unfolding e finish_apply_eq by (simp add: f g h)
  qed
  show ?thesis using dry wet by simp
qed

lemma sublist_join: "e \<in> set es \<Longrightarrow> sublist e (join sep es)"
proof (induction sep es rule: join.induct)
  case (1 sep)
  then show ?case by simp
next
  case (2 sep x)
  then show ?case by simp
next
  case (3 sep x y ys)
  show ?case
  proof (cases "e = x")
    case True
    then show ?thesis by simp
  next
    case False
    with 3 have "sublist e (join sep (y # ys))" by simp
    then obtain ps ss where "join sep (y # ys) = ps @ e @ ss" by (auto simp: sublist_def)
    then have "join sep (x # y # ys) = (x @ sep @ ps) @ e @ ss" by simp
    then show ?thesis unfolding sublist_def by blast
  qed
qed

lemma sublist_validation_message:
  assumes "e \<in> set es" shows "sublist e (validation_message es)"
proof -
  from sublist_join [OF assms, of "''; ''"] obtain ps ss where
    "join ''; '' es = ps @ e @ ss" by (auto simp: sublist_def)
  then have "validation_message es = (''Patch validation failed: '' @ ps) @ e @ ss"
    by (simp add: validation_message_def)
  then show ?thesis unfolding sublist_def by blast
qed

lemma validate_patches_set:
  "set (validate_patches md ps) = (\<Union>p \<in> set ps. set (validate_patch md p))"
  by (induction ps) auto

lemma validate_patches_append:
  "validate_patches md (ps @ qs) = validate_patches md ps @ validate_patches md qs"
  by (induction ps) auto

text \<open>
  C5. When some patch of the list targets a field id that is not found among the section
  fields, parameters and formulas, preview raises and apply reports the validation failure;
  the message names the field id and holds the errors of every patch of the list; apply
  has applied nothing, made no backup, no mutation call and no change-log entry.
\<close>

theorem validation_failure_aborts:
  assumes "p \<in> set ps" and "find_field_by_id md (target_field_id p) = None"
  shows "preview_edits md ps = Inl (ValueError (validation_message (validate_patches md ps)))
       \<and> apply_edits env md ps uid dry cb =
           (\<lparr> success = False, applied_patches = [],
               failed_patches = [(''all'', validation_message (validate_patches md ps))],
               backup_path = None, change_log_entries = [] \<rparr>, [])
       \<and> sublist (''Field '' @ target_field_id p @ '' not found'')
                  (validation_message (validate_patches md ps))
       \<and> (\<forall>q \<in> set ps. \<forall>e \<in> set (validate_patch md q).
             sublist e (validation_message (validate_patches md ps)))"
proof -
  have m: "''Field '' @ target_field_id p @ '' not found'' \<in> set (validate_patch md p)"
    using assms(2) by (simp add: validate_patch_def)
  with assms(1) have i: "''Field '' @ target_field_id p @ '' not found''
      \<in> set (validate_patches md ps)"
    unfolding validate_patches_set by blast
  then have ne: "validate_patches md ps \<noteq> []" by auto
  have a: "preview_edits md ps = Inl (ValueError (validation_message (validate_patches md ps)))"
    using ne by (simp add: preview_edits_def Let_def)
  have b: "apply_edits env md ps uid dry cb =
           (\<lparr> success = False, applied_patches = [],
               failed_patches = [(''all'', validation_message (validate_patches md ps))],
               backup_path = None, change_log_entries = [] \<rparr>, [])"
    using ne by (simp add: apply_edits_def Let_def)
  have c: "\<forall>q \<in> set ps. \<forall>e \<in> set (validate_patch md q).
             sublist e (validation_message (validate_patches md ps))"
  proof (intro ballI)
    fix q e assume "q \<in> set ps" "e \<in> set (validate_patch md q)"
    then have "e \<in> set (validate_patches md ps)" unfolding validate_patches_set by blast
    then show "sublist e (validation_message (validate_patches md ps))"
      by (rule sublist_validation_message)
  qed
  from a b c sublist_validation_message [OF i] show ?thesis by blast
qed

subsection \<open>Hide and show on the preview copy\<close>

lemma apply_patch_to_field_id [simp]: "f_id (apply_patch_to_field f p) = f_id f"
  by (simp add: apply_patch_to_field_def move_field_def split: EditPatchOperation.splits option.splits)

lemma find_in_fields_patch_first:
  "find_in_fields (target_field_id p) (patch_first p fs) =
     map_option (\<lambda>f. apply_patch_to_field f p) (find_in_fields (target_field_id p) fs)"
  by (induction fs) simp_all

lemma find_in_sections_patch_first:
  "find_in_sections (target_field_id p)
      (map (\<lambda>s. s \<lparr> s_fields := patch_first p (s_fields s) \<rparr>) ss) =
     map_option (\<lambda>f. apply_patch_to_field f p) (find_in_sections (target_field_id p) ss)"
  by (induction ss) (simp_all add: find_in_fields_patch_first split: option.splits)

lemma find_apply_patch_to_metadata:
  "find_field_by_id (apply_patch_to_metadata md p) (target_field_id p) =
     map_option (\<lambda>f. apply_patch_to_field f p) (find_field_by_id md (target_field_id p))"
  by (simp add: find_field_by_id_def apply_patch_to_metadata_def find_in_fields_patch_first
        find_in_sections_patch_first split: option.splits)

lemma set_display_name_id [simp]: "f_id (set_display_name f) = f_id f"
  by (simp add: set_display_name_def)

lemma find_in_fields_copy:
  "find_in_fields fid (map set_display_name fs) = map_option set_display_name (find_in_fields fid fs)"
  by (induction fs) simp_all

lemma find_in_sections_copy:
  "find_in_sections fid (map (\<lambda>s. s \<lparr> s_fields := map set_display_name (s_fields s) \<rparr>) ss) =
     map_option set_display_name (find_in_sections fid ss)"
  by (induction ss) (simp_all add: find_in_fields_copy split: option.splits)

lemma find_deep_copy:
  "find_field_by_id (deep_copy md) fid = map_option set_display_name (find_field_by_id md fid)"
  by (simp add: find_field_by_id_def deep_copy_def find_in_fields_copy find_in_sections_copy
        split: option.splits)

text \<open>
  C2 (amended). Hide followed by show on the same field id, applied to the preview copy,
  leaves the field that the id resolves to visible, whatever its visibility was before:
  the final visibility equals the visibility before the patches exactly when the field
  was visible.
\<close>

theorem hide_then_show_visible:
  assumes "operation h = HIDE" and "operation s = SHOW"
    and "target_field_id h = fid" and "target_field_id s = fid"
    and "find_field_by_id md fid = Some f"
  shows "\<exists>f'. find_field_by_id (apply_patches_to_metadata md [h, s] True) fid = Some f'
            \<and> f_visible f' = True
            \<and> (f_visible f' = f_visible f \<longleftrightarrow> f_visible f = True)"
proof -
  have "find_field_by_id (apply_patches_to_metadata md [h, s] True) fid
        = Some (apply_patch_to_field (apply_patch_to_field (set_display_name f) h) s)"
    using assms(3-5)
      find_apply_patch_to_metadata [of "apply_patch_to_metadata (deep_copy md) h" s]
      find_apply_patch_to_metadata [of "deep_copy md" h]
    by (simp add: apply_patches_to_metadata_def find_deep_copy)
  moreover have "f_visible (apply_patch_to_field (apply_patch_to_field (set_display_name f) h) s)"
    using assms(1,2) by (simp add: apply_patch_to_field_def)
  ultimately show ?thesis by auto
qed

theorem apply_edits_accounting_witness:
  "validate_patches sample_metadata
      [sample_patch ''p1'' HIDE ''f1'', sample_patch ''p2'' SHOW ''f2'',
       sample_patch ''p3'' HIDE ''f3''] = []
   \<and> \<not> backup_raises sample_env False True
   \<and> length (filter (patch_raises sample_env False)
        [sample_patch ''p1'' HIDE ''f1'', sample_patch ''p2'' SHOW ''f2'',
         sample_patch ''p3'' HIDE ''f3'']) = 1
   \<and> applied_patches (fst (apply_edits sample_env sample_metadata
        [sample_patch ''p1'' HIDE ''f1'', sample_patch ''p2'' SHOW ''f2'',
         sample_patch ''p3'' HIDE ''f3''] None False True)) = [''p1'', ''p3'']
   \<and> length (failed_patches (fst (apply_edits sample_env sample_metadata
        [sample_patch ''p1'' HIDE ''f1'', sample_patch ''p2'' SHOW ''f2'',
         sample_patch ''p3'' HIDE ''f3''] None False True))) = 1
   \<and> \<not> success (fst (apply_edits sample_env sample_metadata
        [sample_patch ''p1'' HIDE ''f1'', sample_patch ''p2'' SHOW ''f2'',
         sample_patch ''p3'' HIDE ''f3''] None False True))
   \<and> map cl_success (change_log_entries (fst (apply_edits sample_env sample_metadata
        [sample_patch ''p1'' HIDE ''f1'', sample_patch ''p2'' SHOW ''f2'',
         sample_patch ''p3'' HIDE ''f3''] None False True))) = [True, False, True]"
proof -
  have v: "validate_patches sample_metadata
      [sample_patch ''p1'' HIDE ''f1'', sample_patch ''p2'' SHOW ''f2'',
       sample_patch ''p3'' HIDE ''f3''] = []"
    by (simp add: validate_patch_def find_field_by_id_def sample_metadata_def sample_field_def
          sample_patch_def)
  have b: "\<not> backup_raises sample_env False True"
    by (simp add: backup_raises_def sample_env_def)
  show ?thesis
    using v b apply_edits_accounting [OF v b, of None]
    by (simp add: patch_raises_def sample_env_def sample_patch_def)
qed

theorem apply_edits_dry_run_witness:
  "validate_patches sample_metadata
      [sample_patch ''p1'' HIDE ''f1'', sample_patch ''p2'' SHOW ''f2''] = []
   \<and> snd (apply_edits sample_env sample_metadata
        [sample_patch ''p1'' HIDE ''f1'', sample_patch ''p2'' SHOW ''f2''] None True True) = []
   \<and> backup_path (fst (apply_edits sample_env sample_metadata
        [sample_patch ''p1'' HIDE ''f1'', sample_patch ''p2'' SHOW ''f2''] None True True)) = None
   \<and> applied_patches (fst (apply_edits sample_env sample_metadata
        [sample_patch ''p1'' HIDE ''f1'', sample_patch ''p2'' SHOW ''f2''] None True True))
        = [''p1'', ''p2'']
   \<and> map cl_success (change_log_entries (fst (apply_edits sample_env sample_metadata
        [sample_patch ''p1'' HIDE ''f1'', sample_patch ''p2'' SHOW ''f2''] None True True)))
        = [True, True]
   \<and> single_patch_error sample_env (sample_patch ''p1'' HIDE ''f1'') = None
   \<and> single_patch_error sample_env (sample_patch ''p3'' SHOW ''f2'') = None
   \<and> \<not> backup_raises sample_env False True
   \<and> change_log_entries (fst (apply_edits sample_env sample_metadata
        [sample_patch ''p1'' HIDE ''f1'', sample_patch ''p3'' SHOW ''f2''] None False True))
      = change_log_entries (fst (apply_edits sample_env sample_metadata
        [sample_patch ''p1'' HIDE ''f1'', sample_patch ''p3'' SHOW ''f2''] None True True))"
proof -
  have v: "validate_patches sample_metadata
      [sample_patch ''p1'' HIDE ''f1'', sample_patch ''p2'' SHOW ''f2''] = []"
    by (simp add: validate_patch_def find_field_by_id_def sample_metadata_def sample_field_def
          sample_patch_def)
  have w: "validate_patches sample_metadata
      [sample_patch ''p1'' HIDE ''f1'', sample_patch ''p3'' SHOW ''f2''] = []"
    by (simp add: validate_patch_def find_field_by_id_def sample_metadata_def sample_field_def
          sample_patch_def)
  have n: "\<forall>p \<in> set [sample_patch ''p1'' HIDE ''f1'', sample_patch ''p3'' SHOW ''f2''].
         single_patch_error sample_env p = None"
    by (simp add: sample_env_def sample_patch_def)
  have b: "\<not> backup_raises sample_env False True"
    by (simp add: backup_raises_def sample_env_def)
  from apply_edits_dry_run [OF v, of sample_env None True]
  have r1: "apply_edits sample_env sample_metadata
        [sample_patch ''p1'' HIDE ''f1'', sample_patch ''p2'' SHOW ''f2''] None True True =
      (\<lparr> success = True,
          applied_patches = map p_id [sample_patch ''p1'' HIDE ''f1'', sample_patch ''p2'' SHOW ''f2''],
          failed_patches = [], backup_path = None,
          change_log_entries = map (\<lambda>p. create_change_log_entry sample_metadata p None True None)
            [sample_patch ''p1'' HIDE ''f1'', sample_patch ''p2'' SHOW ''f2''] \<rparr>, [])"
    by blast
  from apply_edits_dry_run [OF w, of sample_env None True] n b
  have r2: "change_log_entries (fst (apply_edits sample_env sample_metadata
        [sample_patch ''p1'' HIDE ''f1'', sample_patch ''p3'' SHOW ''f2''] None False True))
      = change_log_entries (fst (apply_edits sample_env sample_metadata
        [sample_patch ''p1'' HIDE ''f1'', sample_patch ''p3'' SHOW ''f2''] None True True))"
    by blast
  have s: "map p_id [sample_patch ''p1'' HIDE ''f1'', sample_patch ''p2'' SHOW ''f2'']
             = [''p1'', ''p2'']"
    by (simp add: sample_patch_def)
  have t: "map cl_success (map (\<lambda>p. create_change_log_entry sample_metadata p None True None)
            [sample_patch ''p1'' HIDE ''f1'', sample_patch ''p2'' SHOW ''f2'']) = [True, True]"
    by (simp add: create_change_log_entry_def Let_def)
  show ?thesis
    unfolding r1 using v n b r2 s t by simp
qed

theorem validation_failure_aborts_witness:
  "sample_patch ''p2'' HIDE ''nope''
     \<in> set [sample_patch ''p1'' HIDE ''f1'', sample_patch ''p2'' HIDE ''nope'',
            sample_patch ''p3'' SHOW ''f2'']
   \<and> find_field_by_id sample_metadata (target_field_id (sample_patch ''p2'' HIDE ''nope'')) = None
   \<and> preview_edits sample_metadata
        [sample_patch ''p1'' HIDE ''f1'', sample_patch ''p2'' HIDE ''nope'',
         sample_patch ''p3'' SHOW ''f2'']
      = Inl (ValueError ''Patch validation failed: Field nope not found'')
   \<and> apply_edits sample_env sample_metadata
        [sample_patch ''p1'' HIDE ''f1'', sample_patch ''p2'' HIDE ''nope'',
         sample_patch ''p3'' SHOW ''f2''] None False True
      = (\<lparr> success = False, applied_patches = [],
            failed_patches = [(''all'', ''Patch validation failed: Field nope not found'')],
            backup_path = None, change_log_entries = [] \<rparr>, [])"
proof -
  have m: "sample_patch ''p2'' HIDE ''nope''
     \<in> set [sample_patch ''p1'' HIDE ''f1'', sample_patch ''p2'' HIDE ''nope'',
            sample_patch ''p3'' SHOW ''f2'']"
    by simp
  have f: "find_field_by_id sample_metadata (target_field_id (sample_patch ''p2'' HIDE ''nope''))
           = None"
    by (simp add: find_field_by_id_def sample_metadata_def sample_field_def sample_patch_def)
  have e: "validation_message (validate_patches sample_metadata
        [sample_patch ''p1'' HIDE ''f1'', sample_patch ''p2'' HIDE ''nope'',
         sample_patch ''p3'' SHOW ''f2''])
      = ''Patch validation failed: Field nope not found''"
    by (simp add: validation_message_def validate_patch_def find_field_by_id_def
          sample_metadata_def sample_field_def sample_patch_def)
  show ?thesis
    using m f validation_failure_aborts [OF m f, of sample_env None False True]
    by (simp only: e)
qed

theorem hide_then_show_roundtrip_counterexample:
  "map_option f_visible (find_field_by_id sample_metadata ''f1'') = Some False
   \<and> map_option f_visible
       (find_field_by_id
          (apply_patches_to_metadata sample_metadata
             [sample_patch ''p1'' HIDE ''f1'', sample_patch ''p2'' SHOW ''f1''] True) ''f1'')
     = Some True"
  by (simp add: find_field_by_id_def apply_patches_to_metadata_def apply_patch_to_metadata_def
        deep_copy_def set_display_name_def truthy_def apply_patch_to_field_def
        sample_metadata_def sample_field_def sample_patch_def)

theorem hide_then_show_visible_witness:
  "operation (sample_patch ''p1'' HIDE ''f1'') = HIDE
   \<and> operation (sample_patch ''p2'' SHOW ''f1'') = SHOW
   \<and> target_field_id (sample_patch ''p1'' HIDE ''f1'') = ''f1''
   \<and> target_field_id (sample_patch ''p2'' SHOW ''f1'') = ''f1''
   \<and> find_field_by_id sample_metadata ''f1'' = Some (sample_field ''f1'' ''Amount'' CURRENCY False)
   \<and> (\<exists>f'. find_field_by_id
          (apply_patches_to_metadata sample_metadata
             [sample_patch ''p1'' HIDE ''f1'', sample_patch ''p2'' SHOW ''f1''] True) ''f1''
          = Some f' \<and> f_visible f' = True)"
proof -
  have a: "operation (sample_patch ''p1'' HIDE ''f1'') = HIDE"
    and b: "operation (sample_patch ''p2'' SHOW ''f1'') = SHOW"
    and c: "target_field_id (sample_patch ''p1'' HIDE ''f1'') = ''f1''"
    and d: "target_field_id (sample_patch ''p2'' SHOW ''f1'') = ''f1''"
    by (simp_all add: sample_patch_def)
  have e: "find_field_by_id sample_metadata ''f1''
           = Some (sample_field ''f1'' ''Amount'' CURRENCY False)"
    by (simp add: find_field_by_id_def sample_metadata_def sample_field_def)
  show ?thesis
    using a b c d e hide_then_show_visible [OF a b c d e] by blast
qed

subsection \<open>Query suggestions\<close>

lemma foldl_append_new_distinct:
  "distinct acc \<Longrightarrow> distinct (foldl (\<lambda>keys x. append_new x keys) acc xs)"
  by (induction xs arbitrary: acc) (simp_all add: append_new_def)

lemma take_append_present:
  assumes "y \<in> set acc"
  shows "set (take n (acc @ y # ys)) \<subseteq> set (take n (acc @ ys))"
proof (cases "n - length acc")
  case 0
  then show ?thesis by simp
next
  case (Suc k)
  then have "take n acc = acc" by simp
  moreover have "set (take k ys) \<subseteq> set (take (Suc k) ys)"
    by (rule set_take_subset_set_take) simp
  ultimately show ?thesis using assms Suc by auto
qed

lemma foldl_append_new_take:
  "set (take n (acc @ xs)) \<subseteq> set (take n (foldl (\<lambda>keys x. append_new x keys) acc xs))"
proof (induction xs arbitrary: acc)
  case Nil
  show ?case by simp
next
  case (Cons y ys)
  show ?case
  proof (cases "y \<in> set acc")
    case True
    then have "set (take n (acc @ y # ys)) \<subseteq> set (take n (acc @ ys))"
      by (rule take_append_present)
    also have "\<dots> \<subseteq> set (take n (foldl (\<lambda>keys x. append_new x keys) acc ys))"
      by (rule Cons.IH)
    finally show ?thesis using True by (simp add: append_new_def)
  next
    case False
    with Cons.IH [of "acc @ [y]"] show ?thesis by (simp add: append_new_def)
  qed
qed

lemma dedup_distinct: "distinct (dedup xs)"
  by (simp add: dedup_def foldl_append_new_distinct)

lemma dedup_take: "x \<in> set (take n xs) \<Longrightarrow> x \<in> set (take n (dedup xs))"
  using foldl_append_new_take [of n "[]" xs] by (auto simp: dedup_def)

lemma in_take_after: "length pre < n \<Longrightarrow> x \<in> set (take n (pre @ x # rest))"
  by (cases "n - length pre") simp_all

lemma collect_field_step:
  "collect_field (a, b, c) f =
     (append_new (f_name f) a,
      (if field_type f = FORMULA then append_new (f_name f) b else b),
      (if field_type f = CURRENCY then append_new (f_name f) c else c))"
  by (simp add: collect_field_def)

lemma append_new_not_Nil: "append_new x xs \<noteq> []"
  by (auto simp: append_new_def)

lemma collect_fields_formula:
  "fst (snd (foldl collect_field (a, b, c) fs)) \<noteq> []"
  if "b \<noteq> [] \<or> (\<exists>f \<in> set fs. field_type f = FORMULA)"
  using that
proof (induction fs arbitrary: a b c)
  case Nil
  then show ?case by simp
next
  case (Cons f fs)
  let ?b = "if field_type f = FORMULA then append_new (f_name f) b else b"
  have "?b \<noteq> [] \<or> (\<exists>f \<in> set fs. field_type f = FORMULA)"
    using Cons.prems by (auto simp: append_new_not_Nil)
  from Cons.IH [OF this] show ?case
    by (simp add: collect_field_step)
qed

lemma collect_fields_currency:
  "snd (snd (foldl collect_field (a, b, c) fs)) \<noteq> []"
  if "c \<noteq> [] \<or> (\<exists>f \<in> set fs. field_type f = CURRENCY)"
  using that
proof (induction fs arbitrary: a b c)
  case Nil
  then show ?case by simp
next
  case (Cons f fs)
  let ?c = "if field_type f = CURRENCY then append_new (f_name f) c else c"
  have "?c \<noteq> [] \<or> (\<exists>f \<in> set fs. field_type f = CURRENCY)"
    using Cons.prems by (auto simp: append_new_not_Nil)
  from Cons.IH [OF this] show ?case
    by (simp add: collect_field_step)
qed

lemma collect_sections_formula:
  "fst (snd (foldl (\<lambda>acc s. foldl collect_field acc (s_fields s)) acc ss)) \<noteq> []"
  if "fst (snd acc) \<noteq> [] \<or> (\<exists>s \<in> set ss. \<exists>f \<in> set (s_fields s). field_type f = FORMULA)"
  using that
proof (induction ss arbitrary: acc)
  case Nil
  then show ?case by simp
next
  case (Cons s ss)
  obtain a b c where acc: "acc = (a, b, c)" by (cases acc)
  show ?case
  proof (cases "b \<noteq> [] \<or> (\<exists>f \<in> set (s_fields s). field_type f = FORMULA)")
    case True
    then have "fst (snd (foldl collect_field (a, b, c) (s_fields s))) \<noteq> []"
      by (rule collect_fields_formula)
    then show ?thesis by (simp add: acc Cons.IH)
  next
    case False
    with Cons.prems acc
    have "\<exists>s \<in> set ss. \<exists>f \<in> set (s_fields s). field_type f = FORMULA" by auto
    then show ?thesis by (simp add: Cons.IH)
  qed
qed

lemma collect_sections_currency:
  "snd (snd (foldl (\<lambda>acc s. foldl collect_field acc (s_fields s)) acc ss)) \<noteq> []"
  if "snd (snd acc) \<noteq> [] \<or> (\<exists>s \<in> set ss. \<exists>f \<in> set (s_fields s). field_type f = CURRENCY)"
  using that
proof (induction ss arbitrary: acc)
  case Nil
  then show ?case by simp
next
  case (Cons s ss)
  obtain a b c where acc: "acc = (a, b, c)" by (cases acc)
  show ?case
  proof (cases "c \<noteq> [] \<or> (\<exists>f \<in> set (s_fields s). field_type f = CURRENCY)")
    case True
    then have "snd (snd (foldl collect_field (a, b, c) (s_fields s))) \<noteq> []"
      by (rule collect_fields_currency)
    then show ?thesis by (simp add: acc Cons.IH)
  next
    case False
    with Cons.prems acc
    have "\<exists>s \<in> set ss. \<exists>f \<in> set (s_fields s). field_type f = CURRENCY" by auto
    then show ?thesis by (simp add: Cons.IH)
  qed
qed

lemma length_field_questions: "length (field_questions xs) = 2 * length xs"
  by (induction xs) simp_all

lemma length_formula_questions: "length (formula_questions xs) \<le> 2"
  by (simp add: formula_questions_def split: list.splits)

lemma length_currency_questions: "length (currency_questions xs) \<le> 2"
  by (simp add: currency_questions_def split: list.splits)

lemma length_connection_questions: "length (connection_questions md) \<le> 1"
  by (simp add: connection_questions_def)

lemma formula_questions_head:
  "xs \<noteq> [] \<Longrightarrow> \<exists>rest. formula_questions xs = ''Which fields use formulas?'' # rest"
  by (simp add: formula_questions_def split: list.splits)

lemma currency_questions_head:
  "xs \<noteq> [] \<Longrightarrow> \<exists>rest. currency_questions xs = ''Show me all currency fields'' # rest"
  by (simp add: currency_questions_def split: list.splits)

lemma basic_in_suggestions:
  "q \<in> set basic_questions \<Longrightarrow> q \<in> set (generate_query_suggestions md)"
proof -
  assume "q \<in> set basic_questions"
  then have "q \<in> set (take 15 (all_suggestions md))"
    by (auto simp: all_suggestions_def basic_questions_def)
  then show ?thesis unfolding generate_query_suggestions_def by (rule dedup_take)
qed

lemma formula_in_suggestions:
  assumes "formula_fields md \<noteq> []"
  shows "''Which fields use formulas?'' \<in> set (generate_query_suggestions md)"
proof -
  from formula_questions_head [OF assms] obtain rest where
    r: "formula_questions (formula_fields md) = ''Which fields use formulas?'' # rest" by blast
  let ?pre = "basic_questions @ field_questions (take 3 (field_names md))"
  have l: "length ?pre < 15"
    by (simp add: basic_questions_def length_field_questions)
  have "all_suggestions md = ?pre @ ''Which fields use formulas?'' #
          (rest @ currency_questions (currency_fields md) @ connection_questions md
           @ table_questions md @ parameter_questions md @ section_questions md)"
    by (simp add: all_suggestions_def r)
  then have "''Which fields use formulas?'' \<in> set (take 15 (all_suggestions md))"
    using in_take_after [OF l] by simp
  then show ?thesis unfolding generate_query_suggestions_def by (rule dedup_take)
qed

lemma currency_in_suggestions:
  assumes "currency_fields md \<noteq> []"
  shows "''Show me all currency fields'' \<in> set (generate_query_suggestions md)"
proof -
  from currency_questions_head [OF assms] obtain rest where
    r: "currency_questions (currency_fields md) = ''Show me all currency fields'' # rest" by blast
  let ?pre = "basic_questions @ field_questions (take 3 (field_names md))
              @ formula_questions (formula_fields md)"
  have l: "length ?pre < 15"
    using length_formula_questions [of "formula_fields md"]
    by (simp add: basic_questions_def length_field_questions)
  have "all_suggestions md = ?pre @ ''Show me all currency fields'' #
          (rest @ connection_questions md
           @ table_questions md @ parameter_questions md @ section_questions md)"
    by (simp add: all_suggestions_def r)
  then have "''Show me all currency fields'' \<in> set (take 15 (all_suggestions md))"
    using in_take_after [OF l] by simp
  then show ?thesis unfolding generate_query_suggestions_def by (rule dedup_take)
qed

lemma related_in_suggestions:
  assumes "2 \<le> length (tables md)"
    and "database_connections md = [] \<or> length (field_names md) \<le> 2"
  shows "''How are the tables related?'' \<in> set (generate_query_suggestions md)"
proof -
  have t: "table_questions md
           = [''What tables are used in this report?'', ''How are the tables related?'']"
    using assms(1) by (auto simp: table_questions_def)
  let ?pre = "basic_questions @ field_questions (take 3 (field_names md))
              @ formula_questions (formula_fields md)
              @ currency_questions (currency_fields md)
              @ connection_questions md @ [''What tables are used in this report?'']"
  have l: "length ?pre < 15"
  proof (cases "database_connections md = []")
    case True
    then show ?thesis
      using length_formula_questions [of "formula_fields md"]
        length_currency_questions [of "currency_fields md"]
      by (simp add: basic_questions_def length_field_questions connection_questions_def)
  next
    case False
    with assms(2) have "length (field_names md) \<le> 2" by simp
    then show ?thesis
      using length_formula_questions [of "formula_fields md"]
        length_currency_questions [of "currency_fields md"]
        length_connection_questions [of md]
      by (simp add: basic_questions_def length_field_questions)
  qed
  have "all_suggestions md = ?pre @ ''How are the tables related?'' #
          (parameter_questions md @ section_questions md)"
    by (simp add: all_suggestions_def t)
  then have "''How are the tables related?'' \<in> set (take 15 (all_suggestions md))"
    using in_take_after [OF l] by simp
  then show ?thesis unfolding generate_query_suggestions_def by (rule dedup_take)
qed

text \<open>
  C7 (amended). For a metadata record with a currency-typed field and a formula-typed
  field in its sections, a parameter and two tables, the suggestion list contains the
  three generic questions, a currency question and a formula question, has at most 15
  entries and no duplicates; it contains the table-relationships question when the
  report has no database connection or at most two distinct field names.
\<close>

theorem suggestions_bounds:
  assumes "\<exists>s \<in> set (sections md). \<exists>f \<in> set (s_fields s). field_type f = CURRENCY"
    and "\<exists>s \<in> set (sections md). \<exists>f \<in> set (s_fields s). field_type f = FORMULA"
    and "parameters md \<noteq> []"
    and "2 \<le> length (tables md)"
  shows "set basic_questions \<subseteq> set (generate_query_suggestions md)
       \<and> ''Show me all currency fields'' \<in> set (generate_query_suggestions md)
       \<and> ''Which fields use formulas?'' \<in> set (generate_query_suggestions md)
       \<and> length (generate_query_suggestions md) \<le> 15
       \<and> distinct (generate_query_suggestions md)
       \<and> (database_connections md = [] \<or> length (field_names md) \<le> 2 \<longrightarrow>
            ''How are the tables related?'' \<in> set (generate_query_suggestions md))"
proof -
  have c: "currency_fields md \<noteq> []"
    unfolding currency_fields_def collect_names_def
    using assms(1) by (intro collect_sections_currency) simp
  have f: "formula_fields md \<noteq> []"
    unfolding formula_fields_def collect_names_def
    using assms(2) by (intro collect_sections_formula) simp
  have d: "distinct (generate_query_suggestions md)"
    by (simp add: generate_query_suggestions_def dedup_distinct)
  have n: "length (generate_query_suggestions md) \<le> 15"
    by (simp add: generate_query_suggestions_def)
  show ?thesis
    using basic_in_suggestions [of _ md] currency_in_suggestions [OF c]
      formula_in_suggestions [OF f] d n related_in_suggestions [OF assms(4)]
    by blast
qed

theorem suggestions_relationships_counterexample:
  "list_ex (\<lambda>s. list_ex (\<lambda>f. field_type f = CURRENCY) (s_fields s)) (sections sample_metadata)
   \<and> list_ex (\<lambda>s. list_ex (\<lambda>f. field_type f = FORMULA) (s_fields s)) (sections sample_metadata)
   \<and> length (parameters sample_metadata) = 1
   \<and> length (tables sample_metadata) = 2
   \<and> ''How are the tables related?'' \<notin> set (generate_query_suggestions sample_metadata)"
  by (simp add: sample_metadata_def sample_field_def generate_query_suggestions_def dedup_def
        append_new_def all_suggestions_def basic_questions_def field_names_def
        formula_fields_def currency_fields_def collect_names_def collect_field_def
        formula_questions_def currency_questions_def connection_questions_def
        table_questions_def parameter_questions_def section_questions_def)

theorem suggestions_bounds_witness:
  "sample_field ''f1'' ''Amount'' CURRENCY False
      \<in> set (s_fields (hd (sections sample_metadata_no_connection)))
   \<and> sample_field ''f2'' ''Total'' FORMULA True
      \<in> set (s_fields (hd (sections sample_metadata_no_connection)))
   \<and> parameters sample_metadata_no_connection \<noteq> []
   \<and> 2 \<le> length (tables sample_metadata_no_connection)
   \<and> database_connections sample_metadata_no_connection = []
   \<and> ''What sections does this report have?''
        \<in> set (generate_query_suggestions sample_metadata_no_connection)
   \<and> ''Show me all currency fields'' \<in> set (generate_query_suggestions sample_metadata_no_connection)
   \<and> ''Which fields use formulas?'' \<in> set (generate_query_suggestions sample_metadata_no_connection)
   \<and> ''How are the tables related?'' \<in> set (generate_query_suggestions sample_metadata_no_connection)
   \<and> length (generate_query_suggestions sample_metadata_no_connection) \<le> 15
   \<and> distinct (generate_query_suggestions sample_metadata_no_connection)"
proof -
  have a: "\<exists>s \<in> set (sections sample_metadata_no_connection).
             \<exists>f \<in> set (s_fields s). field_type f = CURRENCY"
    by (simp add: sample_metadata_no_connection_def sample_metadata_def sample_field_def)
  have b: "\<exists>s \<in> set (sections sample_metadata_no_connection).
             \<exists>f \<in> set (s_fields s). field_type f = FORMULA"
    by (simp add: sample_metadata_no_connection_def sample_metadata_def sample_field_def)
  have c: "parameters sample_metadata_no_connection \<noteq> []"
    by (simp add: sample_metadata_no_connection_def sample_metadata_def)
  have d: "2 \<le> length (tables sample_metadata_no_connection)"
    by (simp add: sample_metadata_no_connection_def sample_metadata_def)
  have e: "database_connections sample_metadata_no_connection = []"
    by (simp add: sample_metadata_no_connection_def)
  have f: "sample_field ''f1'' ''Amount'' CURRENCY False
      \<in> set (s_fields (hd (sections sample_metadata_no_connection)))"
    "sample_field ''f2'' ''Total'' FORMULA True
      \<in> set (s_fields (hd (sections sample_metadata_no_connection)))"
    by (simp_all add: sample_metadata_no_connection_def sample_metadata_def)
  have g: "''What sections does this report have?'' \<in> set basic_questions"
    by (simp add: basic_questions_def)
  show ?thesis
    using suggestions_bounds [OF a b c d] c d e f g by blast
qed

subsection \<open>Upload validation\<close>

text \<open>
  C3. An upload whose file extension is not in the allowed set is rejected with status
  400 and leaves the state as it was (no report record, no file). Zero-byte content is
  always rejected with the state unchanged, so before any file is written (with status
  400 for an allowed name and a non-negative ceiling). Content of exactly the configured
  maximum size (a positive ceiling) is accepted: when the directory, the file write and
  the database do not fail and the id is fresh, the file is written, the record is
  created and the response is returned. Content one byte larger is rejected with 413.
\<close>

theorem upload_validation:
  "(filename = Some fname \<and> fname \<noteq> [] \<and>
      lower (path_suffix fname) \<notin> set (ALLOWED_EXTENSIONS settings) \<longrightarrow>
      upload_report settings env filename content st =
        (Inl (HTTPException 400 (UnsupportedFileType (ALLOWED_EXTENSIONS settings))), st))
   \<and> (content = [] \<longrightarrow>
        (\<exists>e. upload_report settings env filename content st = (Inl e, st)))
   \<and> (content = [] \<and> filename = Some fname \<and> fname \<noteq> [] \<and>
        lower (path_suffix fname) \<in> set (ALLOWED_EXTENSIONS settings) \<and>
        0 \<le> MAX_FILE_SIZE settings \<longrightarrow>
        upload_report settings env filename content st = (Inl (HTTPException 400 EmptyFile), st))
   \<and> (filename = Some fname \<and> fname \<noteq> [] \<and>
        lower (path_suffix fname) \<in> set (ALLOWED_EXTENSIONS settings) \<and>
        int (length content) = MAX_FILE_SIZE settings \<and> 0 < MAX_FILE_SIZE settings \<and>
        mkdir_fault env = None \<and> write_fault env = None \<and> db_fault env = None \<and>
        reports st (new_uuid env) = None \<longrightarrow>
        (\<exists>resp st'. upload_report settings env filename content st = (Inr resp, st')
           \<and> ur_report_id resp = new_uuid env \<and> ur_status resp = PARSING
           \<and> ur_file_size resp = MAX_FILE_SIZE settings
           \<and> files st' (UPLOAD_DIR settings @ ''/'' @ new_uuid env @ ''_'' @ fname) = Some content
           \<and> status_of (reports st') (new_uuid env) = Some UPLOADING
           \<and> background_tasks st' = background_tasks st
                @ [(UPLOAD_DIR settings @ ''/'' @ new_uuid env @ ''_'' @ fname, new_uuid env)]))
   \<and> (filename = Some fname \<and> fname \<noteq> [] \<and>
        lower (path_suffix fname) \<in> set (ALLOWED_EXTENSIONS settings) \<and>
        int (length content) = MAX_FILE_SIZE settings + 1 \<longrightarrow>
        upload_report settings env filename content st =
          (Inl (HTTPException 413 (FileTooLarge (MAX_FILE_SIZE settings))), st))"
proof (intro conjI impI)
  assume "filename = Some fname \<and> fname \<noteq> [] \<and>
      lower (path_suffix fname) \<notin> set (ALLOWED_EXTENSIONS settings)"
  then show "upload_report settings env filename content st =
        (Inl (HTTPException 400 (UnsupportedFileType (ALLOWED_EXTENSIONS settings))), st)"
    by (simp add: upload_report_def)
next
  assume "content = []"
  then show "\<exists>e. upload_report settings env filename content st = (Inl e, st)"
    by (cases filename) (simp_all add: upload_report_def Let_def)
next
  assume "content = [] \<and> filename = Some fname \<and> fname \<noteq> [] \<and>
        lower (path_suffix fname) \<in> set (ALLOWED_EXTENSIONS settings) \<and>
        0 \<le> MAX_FILE_SIZE settings"
  then show "upload_report settings env filename content st
             = (Inl (HTTPException 400 EmptyFile), st)"
    by (simp add: upload_report_def Let_def)
next
  assume a: "filename = Some fname \<and> fname \<noteq> [] \<and>
        lower (path_suffix fname) \<in> set (ALLOWED_EXTENSIONS settings) \<and>
        int (length content) = MAX_FILE_SIZE settings \<and> 0 < MAX_FILE_SIZE settings \<and>
        mkdir_fault env = None \<and> write_fault env = None \<and> db_fault env = None \<and>
        reports st (new_uuid env) = None"
  then have s: "\<not> int (length content) > MAX_FILE_SIZE settings" "int (length content) \<noteq> 0"
    by simp_all
  show "\<exists>resp st'. upload_report settings env filename content st = (Inr resp, st')
           \<and> ur_report_id resp = new_uuid env \<and> ur_status resp = PARSING
           \<and> ur_file_size resp = MAX_FILE_SIZE settings
           \<and> files st' (UPLOAD_DIR settings @ ''/'' @ new_uuid env @ ''_'' @ fname) = Some content
           \<and> status_of (reports st') (new_uuid env) = Some UPLOADING
           \<and> background_tasks st' = background_tasks st
                @ [(UPLOAD_DIR settings @ ''/'' @ new_uuid env @ ''_'' @ fname, new_uuid env)]"
    using a s
    by (simp add: upload_report_def Let_def create_report_record_def status_of_def)
next
  assume "filename = Some fname \<and> fname \<noteq> [] \<and>
        lower (path_suffix fname) \<in> set (ALLOWED_EXTENSIONS settings) \<and>
        int (length content) = MAX_FILE_SIZE settings + 1"
  then show "upload_report settings env filename content st =
          (Inl (HTTPException 413 (FileTooLarge (MAX_FILE_SIZE settings))), st)"
    by (simp add: upload_report_def Let_def)
qed

theorem upload_validation_witness:
  "upload_report sample_settings sample_upload_env (Some ''notes.txt'') ''abcd'' empty_state
     = (Inl (HTTPException 400 (UnsupportedFileType [''.rpt''])), empty_state)
   \<and> upload_report sample_settings sample_upload_env (Some ''sales.rpt'') [] empty_state
     = (Inl (HTTPException 400 EmptyFile), empty_state)
   \<and> int (length ''abcd'') = MAX_FILE_SIZE sample_settings
   \<and> fst (upload_report sample_settings sample_upload_env (Some ''sales.rpt'') ''abcd'' empty_state)
     = Inr \<lparr> ur_report_id = ''r1'', ur_filename = ''sales.rpt'', ur_file_size = 4,
             ur_status = PARSING,
             ur_message = ''File uploaded successfully. Processing in background.'' \<rparr>
   \<and> int (length ''abcde'') = MAX_FILE_SIZE sample_settings + 1
   \<and> upload_report sample_settings sample_upload_env (Some ''sales.rpt'') ''abcde'' empty_state
     = (Inl (HTTPException 413 (FileTooLarge 4)), empty_state)"
proof -
  have x: "lower (path_suffix ''notes.txt'') \<notin> set (ALLOWED_EXTENSIONS sample_settings)"
    by (simp add: lower_def lower_char_def path_suffix_def path_name_def rfind_def
          sample_settings_def)
  have y: "lower (path_suffix ''sales.rpt'') \<in> set (ALLOWED_EXTENSIONS sample_settings)"
    by (simp add: lower_def lower_char_def path_suffix_def path_name_def rfind_def
          sample_settings_def)
  have m: "MAX_FILE_SIZE sample_settings = 4" "ALLOWED_EXTENSIONS sample_settings = [''.rpt'']"
    by (simp_all add: sample_settings_def)
  have ok: "fst (upload_report sample_settings sample_upload_env (Some ''sales.rpt'') ''abcd''
                   empty_state)
     = Inr \<lparr> ur_report_id = ''r1'', ur_filename = ''sales.rpt'', ur_file_size = 4,
             ur_status = PARSING,
             ur_message = ''File uploaded successfully. Processing in background.'' \<rparr>"
    using y m
    by (simp add: upload_report_def Let_def create_report_record_def sample_upload_env_def
          empty_state_def)
  show ?thesis
    using upload_validation [of "Some ''notes.txt''" "''notes.txt''" sample_settings
            sample_upload_env "''abcd''" empty_state]
      upload_validation [of "Some ''sales.rpt''" "''sales.rpt''" sample_settings
            sample_upload_env "[]" empty_state]
      upload_validation [of "Some ''sales.rpt''" "''sales.rpt''" sample_settings
            sample_upload_env "''abcde''" empty_state]
      x y m ok
    by simp
qed

subsection \<open>The stored status during background processing\<close>

lemma on_exception_states:
  assumes "st \<in> set (fst (on_exception env rid e trace db))"
  shows "st \<in> set trace
       \<or> (\<exists>row. db rid = Some row
             \<and> st = db (rid \<mapsto> row \<lparr> r_status := ERROR, r_error_message := Some e \<rparr>))
       \<or> (db rid = None \<and> st = db)"
  using assms
  by (auto simp: on_exception_def update_report_status_def split: option.splits)

lemma task_states:
  assumes "db rid = Some row"
    and "st \<in> set (fst (process_report_background env rid db))"
  shows "\<exists>row'. st rid = Some row'
           \<and> ((r_status row' = r_status row \<and> metadata_json row' = metadata_json row)
              \<or> (r_status row' = r_status row \<and> metadata_json row' \<noteq> None)
              \<or> (r_status row' = READY \<and> metadata_json row' \<noteq> None)
              \<or> r_status row' = ERROR)"
proof (cases "parse_result env")
  case (Inl e)
  with assms(2) have "st \<in> set (fst (on_exception env rid e [db] db))"
    by (simp add: process_report_background_def)
  from on_exception_states [OF this] assms(1) show ?thesis by auto
next
  case (Inr metadata)
  note p = this
  show ?thesis
  proof (cases "store_fault env")
    case (Some e)
    with p assms(2) have "st \<in> set (fst (on_exception env rid e [db] db))"
      by (simp add: process_report_background_def store_metadata_def)
    from on_exception_states [OF this] assms(1) show ?thesis by auto
  next
    case None
    define db1 where "db1 = db (rid \<mapsto> row \<lparr> metadata_json := Some metadata \<rparr>)"
    have s1: "store_metadata (store_fault env) rid metadata db = Inr db1"
      using None assms(1) by (simp add: store_metadata_def db1_def)
    have r1: "db1 rid = Some (row \<lparr> metadata_json := Some metadata \<rparr>)"
      by (simp add: db1_def)
    show ?thesis
    proof (cases "ready_fault env")
      case (Some e)
      with p s1 assms(2) have "st \<in> set (fst (on_exception env rid e [db, db1] db1))"
        by (simp add: process_report_background_def update_report_status_def)
      from on_exception_states [OF this] assms(1) r1 show ?thesis by auto
    next
      case None
      define db2 where
        "db2 = db1 (rid \<mapsto> row \<lparr> metadata_json := Some metadata, r_status := READY,
                                  r_error_message := None \<rparr>)"
      have s2: "update_report_status (ready_fault env) rid READY None db1 = Inr db2"
        using None r1 by (simp add: update_report_status_def db2_def)
      have r2: "db2 rid = Some (row \<lparr> metadata_json := Some metadata, r_status := READY,
                                  r_error_message := None \<rparr>)"
        by (simp add: db2_def)
      show ?thesis
      proof (cases "stat_fault env")
        case (Some e)
        with p s1 s2 assms(2)
        have "st \<in> set (fst (on_exception env rid e [db, db1, db2] db2))"
          by (simp add: process_report_background_def)
        from on_exception_states [OF this] assms(1) r1 r2 show ?thesis by auto
      next
        case None
        with p s1 s2 assms(2) have "st = db \<or> st = db1 \<or> st = db2"
          by (simp add: process_report_background_def)
        with assms(1) r1 r2 show ?thesis by auto
      qed
    qed
  qed
qed

text \<open>
  C1. The status stored for a report whose record has just been created (status
  uploading) is, in every state the background task goes through, one of uploading,
  ready and error: the task never stores the status parsing.
\<close>

theorem stored_status_never_parsing:
  assumes "db rid = Some row" and "r_status row = UPLOADING"
    and "st \<in> set (fst (process_report_background env rid db))"
  shows "status_of st rid \<in> {Some UPLOADING, Some READY, Some ERROR}
       \<and> status_of st rid \<noteq> Some PARSING"
  using task_states [OF assms(1,3)] assms(2) by (auto simp: status_of_def)

theorem stored_status_never_parsing_witness:
  "[''r1'' \<mapsto> sample_row] ''r1'' = Some sample_row
   \<and> r_status sample_row = UPLOADING
   \<and> map (\<lambda>db. status_of db ''r1'')
        (fst (process_report_background sample_task_env ''r1'' [''r1'' \<mapsto> sample_row]))
      = [Some UPLOADING, Some UPLOADING, Some READY]
   \<and> status_of (hd (fst (process_report_background sample_task_env ''r1''
                             [''r1'' \<mapsto> sample_row]))) ''r1'' \<noteq> Some PARSING"
proof -
  have a: "[''r1'' \<mapsto> sample_row] ''r1'' = Some sample_row" by simp
  have b: "r_status sample_row = UPLOADING" by (simp add: sample_row_def)
  have t: "fst (process_report_background sample_task_env ''r1'' [''r1'' \<mapsto> sample_row])
           = [[''r1'' \<mapsto> sample_row],
              [''r1'' \<mapsto> sample_row \<lparr> metadata_json := Some sample_metadata \<rparr>],
              [''r1'' \<mapsto> sample_row \<lparr> metadata_json := Some sample_metadata,
                                        r_status := READY, r_error_message := None \<rparr>]]"
    by (simp add: process_report_background_def sample_task_env_def store_metadata_def
          update_report_status_def)
  have c: "hd (fst (process_report_background sample_task_env ''r1'' [''r1'' \<mapsto> sample_row]))
           \<in> set (fst (process_report_background sample_task_env ''r1''
                          [''r1'' \<mapsto> sample_row]))"
    by (simp add: t)
  from stored_status_never_parsing [OF a b c]
  have d: "status_of (hd (fst (process_report_background sample_task_env ''r1''
                             [''r1'' \<mapsto> sample_row]))) ''r1'' \<noteq> Some PARSING"
    by blast
  have e: "map (\<lambda>db. status_of db ''r1'')
        (fst (process_report_background sample_task_env ''r1'' [''r1'' \<mapsto> sample_row]))
      = [Some UPLOADING, Some UPLOADING, Some READY]"
    unfolding t by (simp add: status_of_def sample_row_def)
  from a b d e show ?thesis by blast
qed

subsection \<open>Metadata and the ready status\<close>

text \<open>
  C8 (amended). In every storage state of the background-parse sequence, started on a
  record for which it holds, a report whose status is ready has a stored metadata blob:
  a record without metadata is never ready. (The metadata is stored before the status
  update, so it can be present while the status is not ready.)
\<close>

theorem ready_has_metadata:
  assumes "db rid = Some row"
    and "r_status row = READY \<longrightarrow> metadata_json row \<noteq> None"
    and "st \<in> set (fst (process_report_background env rid db))"
  shows "\<exists>row'. st rid = Some row'
           \<and> (r_status row' = READY \<longrightarrow> metadata_json row' \<noteq> None)
           \<and> (metadata_json row' = None \<longrightarrow> r_status row' \<noteq> READY)"
  using task_states [OF assms(1,3)] assms(2) by auto

theorem metadata_before_ready_counterexample:
  "map (\<lambda>db. (status_of db ''r1'', get_metadata db ''r1'' \<noteq> None))
     (fst (process_report_background sample_task_env ''r1'' [''r1'' \<mapsto> sample_row]))
   = [(Some UPLOADING, False), (Some UPLOADING, True), (Some READY, True)]"
  by (simp add: process_report_background_def sample_task_env_def store_metadata_def
        update_report_status_def status_of_def get_metadata_def sample_row_def)

theorem ready_has_metadata_witness:
  "[''r1'' \<mapsto> sample_row] ''r1'' = Some sample_row
   \<and> r_status sample_row \<noteq> READY
   \<and> (\<exists>row'. last (fst (process_report_background sample_task_env ''r1''
                            [''r1'' \<mapsto> sample_row])) ''r1'' = Some row'
          \<and> r_status row' = READY \<and> metadata_json row' = Some sample_metadata)"
proof -
  have a: "[''r1'' \<mapsto> sample_row] ''r1'' = Some sample_row" by simp
  have b: "r_status sample_row \<noteq> READY" by (simp add: sample_row_def)
  then have b': "r_status sample_row = READY \<longrightarrow> metadata_json sample_row \<noteq> None" by simp
  have t: "fst (process_report_background sample_task_env ''r1'' [''r1'' \<mapsto> sample_row])
           = [[''r1'' \<mapsto> sample_row],
              [''r1'' \<mapsto> sample_row \<lparr> metadata_json := Some sample_metadata \<rparr>],
              [''r1'' \<mapsto> sample_row \<lparr> metadata_json := Some sample_metadata,
                                        r_status := READY, r_error_message := None \<rparr>]]"
    by (simp add: process_report_background_def sample_task_env_def store_metadata_def
          update_report_status_def)
  have c: "last (fst (process_report_background sample_task_env ''r1'' [''r1'' \<mapsto> sample_row]))
           \<in> set (fst (process_report_background sample_task_env ''r1''
                          [''r1'' \<mapsto> sample_row]))"
    by (simp add: t)
  from ready_has_metadata [OF a b' c] a b show ?thesis
    by (simp add: t)
qed

text \<open>
  When \<open>file_path.stat()\<close> fails in the logging after the status update, the
  \<open>except\<close> branch replaces the stored status ready by error.
\<close>

lemma ready_then_error_trace:
  "map (\<lambda>db. status_of db ''r1'')
     (fst (process_report_background (sample_task_env \<lparr> stat_fault := Some ''No such file'' \<rparr>)
             ''r1'' [''r1'' \<mapsto> sample_row]))
   = [Some UPLOADING, Some UPLOADING, Some READY, Some ERROR]"
  by (simp add: process_report_background_def on_exception_def sample_task_env_def
        store_metadata_def update_report_status_def status_of_def sample_row_def)

end
